theory Spec2Isabelle
  imports Main "HOL-Library.AList"
begin

section \<open>PathMatcher: watcher.ShouldExclude\<close>

text \<open>
  \<^verbatim>\<open>filepath.Match(pattern, name)\<close> belongs to the Go standard library, not to the
  repository. It returns \<^verbatim>\<open>(matched bool, err error)\<close>, the only error being
  \<^verbatim>\<open>ErrBadPattern\<close>; the embedding takes it as a parameter of this type, with
  \<open>Inl\<close> for the error.
\<close>

datatype matchError = ErrBadPattern

type_synonym matcher = "string \<Rightarrow> string \<Rightarrow> matchError + bool"

text \<open>
  \<^verbatim>\<open>ShouldExclude(path, patterns)\<close> (watcher.go): the loop over the patterns, with
  \<^verbatim>\<open>continue\<close> on a pattern that does not compile and \<^verbatim>\<open>return true\<close> on the first
  match. The guard \<^verbatim>\<open>len(patterns) == 0\<close> is the first equation.
\<close>

fun ShouldExclude :: "matcher \<Rightarrow> string \<Rightarrow> string list \<Rightarrow> bool" where
  "ShouldExclude match path [] = False"
| "ShouldExclude match path (pattern # patterns) =
     (case match pattern path of
        Inl err \<Rightarrow> ShouldExclude match path patterns
      | Inr matched \<Rightarrow> if matched then True else ShouldExclude match path patterns)"

text \<open>
  A matcher for the tests below: it agrees with \<^verbatim>\<open>filepath.Match\<close> on the patterns
  that hold no metacharacter (they match exactly themselves) and on the pattern
  \<^verbatim>\<open>[\<close>, which is malformed (an unclosed character class).
\<close>

definition literalMatch :: matcher where
  "literalMatch pattern name =
     (if pattern = ''['' then Inl ErrBadPattern else Inr (pattern = name))"

section \<open>UploadPipeline: uploader.go\<close>

subsection \<open>Errors, channels\<close>

text \<open>
  Go errors are built with \<^verbatim>\<open>fmt.Errorf\<close>; the embedding has one constructor for each
  place of the modelled code that builds one.
\<close>

datatype error =
    QueueFull              \<comment> \<open>"upload queue is full"\<close>
  | NotRunning             \<comment> \<open>"uploader is not running"\<close>
  | RelFailed              \<comment> \<open>"failed to get relative path"\<close>
  | OpenFailed             \<comment> \<open>"failed to open file"\<close>
  | FileInfoFailed         \<comment> \<open>"failed to get file info"\<close>
  | CannotUploadDirectory  \<comment> \<open>"cannot upload directory"\<close>
  | HashFailed             \<comment> \<open>"failed to calculate hash"\<close>
  | SeekFailed             \<comment> \<open>"failed to reset file position"\<close>
  | UploadFailed           \<comment> \<open>"failed to upload file"\<close>
  | EmptyPath              \<comment> \<open>"folder path cannot be empty"\<close>
  | PathError              \<comment> \<open>"folder path error"\<close>
  | NotADirectory          \<comment> \<open>"path is not a directory"\<close>
  | AlreadyAdded           \<comment> \<open>"folder already added with path"\<close>
  | WatchFailed            \<comment> \<open>"failed to watch folder"\<close>
  | SaveFailed             \<comment> \<open>"failed to save config"\<close>
  | FolderNotFound         \<comment> \<open>"folder with ID ... not found"\<close>
  | WalkFailed             \<comment> \<open>"failed to walk directory"\<close>
  | ListFailed             \<comment> \<open>"failed to list remote files"\<close>
  | DownloadFromRemoteFailed \<comment> \<open>"failed to download from remote"\<close>
  | ContextCanceled        \<comment> \<open>\<^verbatim>\<open>ctx.Err()\<close>\<close>
  | ReloadFailed           \<comment> \<open>"failed to reload configuration"\<close>

text \<open>
  A call either returns or panics (a send on a closed channel, a negative shift count,
  a slice bound out of range, an assignment to an entry of a nil map). \<open>status\<close> is
  how a call that changes a state ends: \<^verbatim>\<open>return nil\<close>, \<^verbatim>\<open>return err\<close>, or a panic.
\<close>

datatype 'a outcome = Return 'a | Panic

datatype status = NoError | Err error | Panics

text \<open>
  A buffered Go channel: the values it holds in order, its capacity, and whether
  \<^verbatim>\<open>close\<close> was called on it.
\<close>

record 'a chan =
  buf :: "'a list"
  cap :: nat
  closed :: bool

definition makeChan :: "nat \<Rightarrow> 'a chan" where
  "makeChan n = \<lparr>buf = [], cap = n, closed = False\<rparr>"

definition closeChan :: "'a chan \<Rightarrow> 'a chan" where
  "closeChan c = c\<lparr>closed := True\<rparr>"

text \<open>
  A send that does not wait: on a closed channel the send proceeds by panicking; on an
  open one it proceeds when the buffer has room; otherwise it cannot proceed
  (the channels of the uploader are buffered, so a receiver waiting means an empty buffer).
\<close>

datatype 'a sendResult = Sent "'a chan" | WouldBlock | SendPanics

definition trySend :: "'a chan \<Rightarrow> 'a \<Rightarrow> 'a sendResult" where
  "trySend c x =
     (if closed c then SendPanics
      else if length (buf c) < cap c then Sent (c\<lparr>buf := buf c @ [x]\<rparr>)
      else WouldBlock)"

subsection \<open>Tasks, results, the uploader\<close>

text \<open>
  \<^verbatim>\<open>Metadata\<close> is a Go map: \<open>None\<close> is the nil map, and an association list with
  \<open>AList.update\<close> is the assignment \<^verbatim>\<open>m[k] = v\<close>. Times are seconds on the model's
  clock; the zero \<^verbatim>\<open>time.Time\<close> is \<open>0\<close>.
\<close>

record UploadTask =
  FilePath :: string
  Key :: string
  FolderID :: string
  Priority :: int
  Metadata :: "(string \<times> string) list option"
  RetryCount :: int
  LastAttempt :: nat

record UploadResult =
  Task :: UploadTask
  Success :: bool
  Error :: "error option"
  VersionID :: string
  Hash :: string
  Size :: int

record Uploader =
  taskQueue :: "UploadTask chan"
  resultChan :: "UploadResult chan"
  maxConcurrency :: int
  throttleBytes :: int
  ctxDone :: bool
  running :: bool

text \<open>
  \<^verbatim>\<open>NewUploader(store, cfg)\<close>: \<^verbatim>\<open>cfg\<close> is an \<^verbatim>\<open>interface{}\<close> read by a type switch. The
  store is part of the world the uploads run in (see \<open>World\<close> below).
\<close>

datatype cfgValue =
    CommonConfig int int   \<comment> \<open>\<^verbatim>\<open>*commonconfig.Config\<close>: MaxConcurrency, ThrottleBytes\<close>
  | AgentConfig            \<comment> \<open>\<^verbatim>\<open>*config.Config\<close>\<close>
  | OtherValue

definition NewUploader :: "cfgValue \<Rightarrow> Uploader" where
  "NewUploader cfg =
     (let (maxConcurrency, throttleBytes) =
            (case cfg of CommonConfig mc tb \<Rightarrow> (mc, tb) | _ \<Rightarrow> (4, 0))
      in \<lparr>taskQueue = makeChan 1000,
          resultChan = makeChan 100,
          maxConcurrency = maxConcurrency,
          throttleBytes = throttleBytes,
          ctxDone = False,
          running = False\<rparr>)"

text \<open>
  \<^verbatim>\<open>Start\<close> marks the uploader running and spawns the workers (modelled below by
  \<open>worker\<close>). \<^verbatim>\<open>Stop\<close> cancels the context, closes the task queue, waits for the workers
  and closes the result channel.
\<close>

definition Start :: "Uploader \<Rightarrow> Uploader" where
  "Start u = (if running u then u else u\<lparr>running := True\<rparr>)"

definition Stop :: "Uploader \<Rightarrow> Uploader" where
  "Stop u =
     (if \<not> running u then u
      else u\<lparr>ctxDone := True,
             taskQueue := closeChan (taskQueue u),
             resultChan := closeChan (resultChan u),
             running := False\<rparr>)"

text \<open>
  \<^verbatim>\<open>QueueUpload(task)\<close>: a \<^verbatim>\<open>select\<close> with the send as its only case and a
  \<^verbatim>\<open>default\<close>.
\<close>

definition QueueUpload :: "Uploader \<Rightarrow> UploadTask \<Rightarrow> status \<times> Uploader" where
  "QueueUpload u task =
     (case trySend (taskQueue u) task of
        Sent q \<Rightarrow> (NoError, u\<lparr>taskQueue := q\<rparr>)
      | WouldBlock \<Rightarrow> (Err QueueFull, u)
      | SendPanics \<Rightarrow> (Panics, u))"

text \<open>
  The library functions the uploader calls, taken as parameters: \<^verbatim>\<open>filepath.Rel\<close>
  (\<open>None\<close> for its error), the host's path separator (\<^verbatim>\<open>filepath.ToSlash\<close> is written
  out below), \<^verbatim>\<open>filepath.Ext\<close>, SHA-256 in hexadecimal, \<^verbatim>\<open>fmt.Sprintf("%d", n)\<close> and
  the RFC 3339 format of a time.
\<close>

record Lib =
  rel :: "string \<Rightarrow> string \<Rightarrow> string option"
  separator :: char
  ext :: "string \<Rightarrow> string"
  sha256hex :: "string \<Rightarrow> string"
  sprintInt :: "int \<Rightarrow> string"
  rfc3339 :: "nat \<Rightarrow> string"

definition ToSlash :: "char \<Rightarrow> string \<Rightarrow> string" where
  "ToSlash sep path =
     (if sep = CHR ''/'' then path
      else map (\<lambda>c. if c = sep then CHR ''/'' else c) path)"

text \<open>
  \<^verbatim>\<open>QueueFile(filePath, folderPath)\<close>, called by the orchestrator for a change event
  and for every file of a full scan. \<^verbatim>\<open>FolderID\<close> and \<^verbatim>\<open>LastAttempt\<close> are left at
  their zero values. \<open>now\<close> is the reading of \<^verbatim>\<open>time.Now()\<close>.
\<close>

definition QueueFile ::
  "Lib \<Rightarrow> nat \<Rightarrow> Uploader \<Rightarrow> string \<Rightarrow> string \<Rightarrow> status \<times> Uploader" where
  "QueueFile lib now u filePath folderPath =
     (if \<not> running u then (Err NotRunning, u)
      else case rel lib folderPath filePath of
        None \<Rightarrow> (Err RelFailed, u)
      | Some relPath \<Rightarrow>
          (let storageKey = ToSlash (separator lib) relPath;
               task = \<lparr>FilePath = filePath,
                       Key = storageKey,
                       FolderID = [],
                       Priority = 1,
                       Metadata = Some [],
                       RetryCount = 0,
                       LastAttempt = 0\<rparr>;
               task = task\<lparr>Metadata := map_option (AList.update ''source_folder'' folderPath) (Metadata task)\<rparr>;
               task = task\<lparr>Metadata := map_option (AList.update ''upload_time'' (rfc3339 lib now)) (Metadata task)\<rparr>
           in QueueUpload u task))"

subsection \<open>One upload attempt: processUpload\<close>

definition detectContentType :: "Lib \<Rightarrow> string \<Rightarrow> string" where
  "detectContentType lib filePath =
     (let e = ext lib filePath in
      if e = ''.jpg'' \<or> e = ''.jpeg'' then ''image/jpeg''
      else if e = ''.png'' then ''image/png''
      else if e = ''.gif'' then ''image/gif''
      else if e = ''.pdf'' then ''application/pdf''
      else if e = ''.txt'' then ''text/plain''
      else if e = ''.html'' \<or> e = ''.htm'' then ''text/html''
      else if e = ''.css'' then ''text/css''
      else if e = ''.js'' then ''application/javascript''
      else if e = ''.json'' then ''application/json''
      else if e = ''.xml'' then ''application/xml''
      else if e = ''.zip'' then ''application/zip''
      else if e = ''.doc'' \<or> e = ''.docx'' then ''application/msword''
      else if e = ''.xls'' \<or> e = ''.xlsx'' then ''application/vnd.ms-excel''
      else if e = ''.ppt'' \<or> e = ''.pptx'' then ''application/vnd.ms-powerpoint''
      else ''application/octet-stream'')"

text \<open>
  What the world outside the uploader answers at one moment: \<^verbatim>\<open>os.Open\<close> (\<open>None\<close> when
  it fails) with what the calls on the opened file give, and the backend's
  \<^verbatim>\<open>UploadFile(ctx, key, reader, metadata)\<close> (\<open>None\<close> for an error, else the version
  id). The throttled reader that wraps the file when \<^verbatim>\<open>throttleBytes > 0\<close> delivers the
  same bytes, so the backend is given the content either way.
\<close>

record OpenedFile =
  statFails :: bool
  isDirectory :: bool
  readFails :: bool
  seekFails :: bool
  content :: string
  modTime :: nat

record World =
  openFile :: "string \<Rightarrow> OpenedFile option"
  uploadFile :: "string \<Rightarrow> string \<Rightarrow> (string \<times> string) list \<Rightarrow> string option"

text \<open>
  \<^verbatim>\<open>processUpload(task)\<close>, with each early return as a branch. \<^verbatim>\<open>result.Task\<close> is a
  copy of the task made on entry; the metadata map is shared by the copies unless it was
  nil, so the four entries written before the transfer show in \<^verbatim>\<open>result.Task\<close> (and in
  the caller's task) exactly when the task came with a map.
\<close>

definition processUpload :: "Lib \<Rightarrow> World \<Rightarrow> Uploader \<Rightarrow> UploadTask \<Rightarrow> UploadResult" where
  "processUpload lib w u task =
     (let result = \<lparr>Task = task, Success = False, Error = None,
                     VersionID = [], Hash = [], Size = 0\<rparr>
      in case openFile w (FilePath task) of
           None \<Rightarrow> result\<lparr>Error := Some OpenFailed\<rparr>
         | Some file \<Rightarrow>
             if statFails file then result\<lparr>Error := Some FileInfoFailed\<rparr>
             else if isDirectory file then result\<lparr>Error := Some CannotUploadDirectory\<rparr>
             else if readFails file then result\<lparr>Error := Some HashFailed\<rparr>
             else
               (let hash = sha256hex lib (content file);
                    result = result\<lparr>Hash := hash\<rparr>
                in if seekFails file then result\<lparr>Error := Some SeekFailed\<rparr>
                   else
                     (let fileSize = int (length (content file));
                          result = result\<lparr>Size := fileSize\<rparr>;
                          metadata = (case Metadata task of None \<Rightarrow> [] | Some m \<Rightarrow> m);
                          metadata = AList.update ''content_type'' (detectContentType lib (FilePath task)) metadata;
                          metadata = AList.update ''hash_sha256'' hash metadata;
                          metadata = AList.update ''size'' (sprintInt lib fileSize) metadata;
                          metadata = AList.update ''modified_time'' (rfc3339 lib (modTime file)) metadata;
                          result = result\<lparr>Task := task\<lparr>Metadata := map_option (\<lambda>m. metadata) (Metadata task)\<rparr>\<rparr>
                      in case uploadFile w (Key task) (content file) metadata of
                           None \<Rightarrow> result\<lparr>Error := Some UploadFailed\<rparr>
                         | Some versionID \<Rightarrow> result\<lparr>VersionID := versionID, Success := True\<rparr>)))"

subsection \<open>The worker\<close>

text \<open>
  The worker's state: the uploader, the clock (seconds) and, as a record of what the
  worker did, the attempts it made: the time of each call of \<^verbatim>\<open>processUpload\<close> and
  the task it was called on.
\<close>

record WorkerState =
  up :: Uploader
  clock :: nat
  attempted :: "(nat \<times> UploadTask) list"

text \<open>
  How a run of the worker ends: \<open>Waiting\<close> when \<^verbatim>\<open>range u.taskQueue\<close> waits on an
  empty open queue, \<open>Finished\<close> when the queue is closed and drained, \<open>Cancelled\<close> when the
  context is done, \<open>BlockedOnResults\<close> and \<open>BlockedOnQueue\<close> when a send waits for room
  that only another goroutine can make, \<open>Panicked\<close> on a send to a closed channel or a
  negative shift count.
\<close>

datatype workerExit = Waiting | Finished | Cancelled | BlockedOnResults | BlockedOnQueue | Panicked

text \<open>
  The body of the loop for one task taken from the queue; \<open>None\<close> means the loop goes
  on. The model follows one worker between two calls of \<^verbatim>\<open>Stop\<close>: the context is read
  where the body starts, so the \<^verbatim>\<open>ctx.Done()\<close> cases of the later \<^verbatim>\<open>select\<close>s, which
  fire only when \<^verbatim>\<open>Stop\<close> runs during the body, end the run as the cases that wait.
  After \<^verbatim>\<open>processUpload\<close> the worker's task has the metadata of \<^verbatim>\<open>result.Task\<close> (the
  shared map). \<^verbatim>\<open>1<<task.RetryCount\<close> panics on a negative count; the guard leaves
  counts below 3, where the shift is \<open>2 ^ RetryCount\<close>. The back-off is the time the
  clock advances between the failed attempt and the send that puts the task back.
\<close>

definition workerBody ::
  "Lib \<Rightarrow> (nat \<Rightarrow> World) \<Rightarrow> WorkerState \<Rightarrow> UploadTask \<Rightarrow> workerExit option \<times> WorkerState" where
  "workerBody lib world s task =
     (if ctxDone (up s) then (Some Cancelled, s)
      else
        (let result = processUpload lib (world (clock s)) (up s) task;
             s = s\<lparr>attempted := attempted s @ [(clock s, task)]\<rparr>;
             task = Task result
         in case trySend (resultChan (up s)) result of
              SendPanics \<Rightarrow> (Some Panicked, s)
            | WouldBlock \<Rightarrow> (Some BlockedOnResults, s)
            | Sent rc \<Rightarrow>
                (let s = s\<lparr>up := (up s)\<lparr>resultChan := rc\<rparr>\<rparr>
                 in if \<not> Success result \<and> RetryCount task < 3 then
                      (if RetryCount task < 0 then (Some Panicked, s)
                       else
                         (let backoff = 2 ^ nat (RetryCount task);
                              task = task\<lparr>RetryCount := RetryCount task + 1,
                                          LastAttempt := clock s\<rparr>;
                              s = s\<lparr>clock := clock s + backoff\<rparr>
                          in case trySend (taskQueue (up s)) task of
                               SendPanics \<Rightarrow> (Some Panicked, s)
                             | WouldBlock \<Rightarrow> (Some BlockedOnQueue, s)
                             | Sent q \<Rightarrow> (None, s\<lparr>up := (up s)\<lparr>taskQueue := q\<rparr>\<rparr>)))
                    else (None, s))))"

text \<open>
  The attempts a queue can still cause: a task with retry count \<open>c\<close> is attempted once
  and put back while \<open>c < 3\<close>.
\<close>

definition attemptsLeft :: "UploadTask \<Rightarrow> nat" where
  "attemptsLeft task = 1 + nat (3 - RetryCount task)"

definition queueWork :: "UploadTask list \<Rightarrow> nat" where
  "queueWork q = sum_list (map attemptsLeft q)"

text \<open>
  \<^verbatim>\<open>worker(id)\<close>: \<^verbatim>\<open>for task := range u.taskQueue\<close> takes the tasks in order until the
  queue is empty.
\<close>

function worker :: "Lib \<Rightarrow> (nat \<Rightarrow> World) \<Rightarrow> WorkerState \<Rightarrow> workerExit \<times> WorkerState" where
  "worker lib world s =
     (case buf (taskQueue (up s)) of
        [] \<Rightarrow> (if closed (taskQueue (up s)) then Finished else Waiting, s)
      | task # rest \<Rightarrow>
          (case workerBody lib world (s\<lparr>up := (up s)\<lparr>taskQueue := (taskQueue (up s))\<lparr>buf := rest\<rparr>\<rparr>\<rparr>) task of
             (None, s') \<Rightarrow> worker lib world s'
           | (Some e, s') \<Rightarrow> (e, s')))"
  by pat_completeness auto
termination
proof (relation "measure (\<lambda>(lib, world, s). queueWork (buf (taskQueue (up s))))")
  show "wf (measure (\<lambda>(lib, world, s). queueWork (buf (taskQueue (up s)))))"
    by simp
next
  fix lib :: Lib and world :: "nat \<Rightarrow> World" and s :: WorkerState
    and task rest and x :: "workerExit option" and s' :: WorkerState
  assume q: "buf (taskQueue (up s)) = task # rest"
    and body: "(x, s') = workerBody lib world (s\<lparr>up := (up s)\<lparr>taskQueue := (taskQueue (up s))\<lparr>buf := rest\<rparr>\<rparr>\<rparr>) task"
    and cont: "x = None"
  let ?s0 = "s\<lparr>up := (up s)\<lparr>taskQueue := (taskQueue (up s))\<lparr>buf := rest\<rparr>\<rparr>\<rparr>"
  let ?r = "processUpload lib (world (clock s)) (up ?s0) task"
  have rc: "RetryCount (Task ?r) = RetryCount task"
    by (simp add: processUpload_def Let_def split: option.splits)
  from body cont have b: "workerBody lib world ?s0 task = (None, s')"
    by simp
  have "buf (taskQueue (up s')) = rest
      \<or> (RetryCount task < 3 \<and> 0 \<le> RetryCount task
          \<and> (\<exists>t. buf (taskQueue (up s')) = rest @ [t] \<and> RetryCount t = RetryCount task + 1))"
    using b rc
    by (auto simp: workerBody_def Let_def trySend_def
             split: if_splits sendResult.splits)
  then have "queueWork (buf (taskQueue (up s'))) < queueWork (task # rest)"
    by (auto simp: queueWork_def attemptsLeft_def)
  then show "((lib, world, s'), (lib, world, s))
      \<in> measure (\<lambda>(lib, world, s). queueWork (buf (taskQueue (up s))))"
    using q by simp
qed

declare worker.simps [simp del]

text \<open>
  A list of attempts (time, retry count) keeps the back-off when each attempt comes no
  earlier than \<open>2 ^ retry count\<close> seconds after the attempt before it, the first one no
  earlier than \<open>earliest\<close>.
\<close>

fun backedOff :: "nat \<Rightarrow> (nat \<times> int) list \<Rightarrow> bool" where
  "backedOff earliest [] = True"
| "backedOff earliest ((t, c) # later) = (earliest \<le> t \<and> backedOff (t + 2 ^ nat c) later)"

subsection \<open>The throttled reader\<close>










section \<open>Configuration: config.go\<close>

text \<open>
  \<^verbatim>\<open>config.SyncFolder\<close> has no two-way field. \<^verbatim>\<open>Config.Folders\<close> is a Go map:
  \<open>None\<close> is the nil map (what \<^verbatim>\<open>json.Unmarshal\<close> leaves when the file has no
  \<^verbatim>\<open>folders\<close> entry), an association list otherwise. The server settings are not read
  by the modelled code and are left out.
\<close>

record SyncFolder =
  LocalPath :: string
  RemotePath :: string
  cfExcludePatterns :: "string list"
  cfEnabled :: bool

record Config =
  Folders :: "(string \<times> SyncFolder) list option"
  IntervalMinutes :: int
  AutoSync :: bool
  filePath :: string

definition DefaultConfig :: Config where
  "DefaultConfig = \<lparr>Folders = Some [], IntervalMinutes = 15, AutoSync = True, filePath = []\<rparr>"

text \<open>What a path of the disk holds for \<^verbatim>\<open>LoadConfig\<close>.\<close>

datatype diskFile = NotExist | Unreadable | Malformed | Holds Config


definition GetAllFolders :: "Config \<Rightarrow> (string \<times> SyncFolder) list" where
  "GetAllFolders c = (case Folders c of None \<Rightarrow> [] | Some fs \<Rightarrow> fs)"


text \<open>\<^verbatim>\<open>c.Folders[id] = folder\<close> panics on the nil map.\<close>

definition SetSyncFolder :: "Config \<Rightarrow> string \<Rightarrow> SyncFolder \<Rightarrow> Config outcome" where
  "SetSyncFolder c fid folder =
     (case Folders c of
        None \<Rightarrow> Panic
      | Some fs \<Rightarrow> Return (c\<lparr>Folders := Some (AList.update fid folder fs)\<rparr>))"

section \<open>SyncOrchestrator: sync/manager.go\<close>

subsection \<open>The world around the orchestrator\<close>

text \<open>
  A regular file of the local disk; an entry \<^verbatim>\<open>filepath.Walk\<close> hands to its callback
  (the path, \<^verbatim>\<open>info.IsDir()\<close>, \<^verbatim>\<open>info.ModTime()\<close>, and whether \<^verbatim>\<open>err\<close> is set);
  \<^verbatim>\<open>storage.FileInfo\<close>; a call made to the storage backend.
\<close>

record LocalFile =
  fileContent :: string
  fileModTime :: nat

record WalkEntry =
  wePath :: string
  weIsDir :: bool
  weModTime :: nat
  weErr :: bool

record FileInfo =
  fiKey :: string
  fiSize :: int
  fiLastModified :: nat
  fiETag :: string

datatype storageCall = ListFilesCall string | DownloadFileCall string

text \<open>
  What the operating system, the standard library, the watcher and the storage backend
  answer, taken as parameters: \<^verbatim>\<open>os.Stat\<close> (\<open>None\<close> for an error, else whether the path
  is a directory); the entries \<^verbatim>\<open>filepath.Walk\<close> presents for a root, given the files
  of the disk (the callbacks of the modelled code never return \<^verbatim>\<open>SkipDir\<close>, so a walk
  is the list of its entries up to the first error a callback returns);
  \<^verbatim>\<open>filepath.Join\<close> and \<^verbatim>\<open>filepath.Dir\<close>; whether \<^verbatim>\<open>os.MkdirAll\<close>, \<^verbatim>\<open>os.Create\<close>,
  \<^verbatim>\<open>os.Chtimes\<close>, the write of the configuration file and the watcher's
  \<^verbatim>\<open>AddFolder\<close> fail on a path; \<^verbatim>\<open>ListFiles(prefix)\<close> (\<open>None\<close> for an error);
  \<^verbatim>\<open>DownloadFile(key, writer)\<close>, as the bytes it writes and whether it returns an
  error; the readings of \<^verbatim>\<open>time.Now()\<close>, \<^verbatim>\<open>uuid.New()\<close> and \<^verbatim>\<open>generateRandomID()\<close>.
\<close>

record Env =
  envLib :: Lib
  envMatch :: matcher
  statPath :: "string \<Rightarrow> bool option"
  walkEntries :: "(string \<Rightarrow> LocalFile option) \<Rightarrow> string \<Rightarrow> WalkEntry list"
  joinPath :: "string \<Rightarrow> string \<Rightarrow> string"
  dirOf :: "string \<Rightarrow> string"
  mkdirAllFails :: "string \<Rightarrow> bool"
  createFails :: "string \<Rightarrow> bool"
  chtimesFails :: "string \<Rightarrow> bool"
  writeFails :: "string \<Rightarrow> bool"
  watchFails :: "string \<Rightarrow> bool"
  remoteList :: "string \<Rightarrow> FileInfo list option"
  remoteGet :: "string \<Rightarrow> string \<times> bool"
  timeNow :: nat
  newUUID :: string
  randomID :: string

text \<open>
  What the orchestrator changes outside itself: the regular files of the local disk by
  path, the configuration files, and the calls made to the storage backend so far.
\<close>

record Sys =
  files :: "string \<Rightarrow> LocalFile option"
  disk :: "string \<Rightarrow> diskFile"
  storageCalls :: "storageCall list"

text \<open>\<^verbatim>\<open>config.SaveConfig(cfg)\<close>.\<close>

definition SaveConfig :: "Env \<Rightarrow> Sys \<Rightarrow> Config \<Rightarrow> error option \<times> Sys" where
  "SaveConfig env sys cfg =
     (if filePath cfg = [] then (Some SaveFailed, sys)
      else if writeFails env (filePath cfg) then (Some SaveFailed, sys)
      else (None, sys\<lparr>disk := (disk sys)(filePath cfg := Holds cfg)\<rparr>))"

subsection \<open>The registry and the manager\<close>

record FolderSync =
  ID :: string
  Path :: string
  ExcludePatterns :: "string list"
  LastSync :: nat
  TwoWaySync :: bool
  Enabled :: bool

datatype SyncState =
  SyncStateIdle | SyncStateScanning | SyncStateSyncing | SyncStateError | SyncStatePaused

record SyncStats =
  TotalFiles :: int
  FilesUploaded :: int
  FilesDownloaded :: int
  BytesUploaded :: int
  BytesDownloaded :: int
  LastSyncTime :: nat
  Errors :: int
  StartTime :: nat

text \<open>
  The watcher is a collaborator of the orchestrator: the model keeps the roots it was
  given with their patterns, and takes from the world whether a registration fails.
  \<^verbatim>\<open>RemoveFolder\<close>'s error is only logged by the orchestrator.
\<close>

record FileWatcher =
  watched :: "(string \<times> string list) list"

definition watcherAddFolder :: "Env \<Rightarrow> FileWatcher \<Rightarrow> string \<Rightarrow> string list \<Rightarrow> error option \<times> FileWatcher" where
  "watcherAddFolder env fw path excludePatterns =
     (if watchFails env path then (Some WatchFailed, fw)
      else (None, fw\<lparr>watched := AList.update path excludePatterns (watched fw)\<rparr>))"


text \<open>
  \<^verbatim>\<open>SyncManager\<close>. The registry \<^verbatim>\<open>folders\<close> is a Go map from ids to pointers; the
  model holds the folder each pointer leads to, so a write through a registered pointer
  is a write to the registry. \<^verbatim>\<open>watcher\<close> is nil until \<^verbatim>\<open>Start\<close>.
\<close>

record SyncManager =
  uploader :: Uploader
  config :: Config
  stats :: SyncStats
  state :: SyncState
  deviceID :: string
  syncInterval :: int
  folders :: "(string \<times> FolderSync) list"
  watcher :: "FileWatcher option"

text \<open>
  \<^verbatim>\<open>NewSyncManager(cfg, storage, uploader)\<close>: the loop over \<^verbatim>\<open>cfg.GetAllFolders()\<close>
  assigns one registry entry for each configured folder.
\<close>

definition folderFromConfig :: "string \<Rightarrow> SyncFolder \<Rightarrow> FolderSync" where
  "folderFromConfig fid folder =
     \<lparr>ID = fid,
      Path = LocalPath folder,
      ExcludePatterns = cfExcludePatterns folder,
      LastSync = 0,
      TwoWaySync = False,
      Enabled = cfEnabled folder\<rparr>"

definition NewSyncManager :: "Env \<Rightarrow> Config \<Rightarrow> Uploader \<Rightarrow> SyncManager" where
  "NewSyncManager env cfg u =
     \<lparr>uploader = u,
      config = cfg,
      stats = \<lparr>TotalFiles = 0, FilesUploaded = 0, FilesDownloaded = 0, BytesUploaded = 0,
               BytesDownloaded = 0, LastSyncTime = 0, Errors = 0, StartTime = timeNow env\<rparr>,
      state = SyncStateIdle,
      deviceID = randomID env,
      syncInterval = IntervalMinutes cfg,
      folders = fold (\<lambda>(fid, folder) fs. AList.update fid (folderFromConfig fid folder) fs)
                  (GetAllFolders cfg) [],
      watcher = None\<rparr>"

text \<open>
  \<^verbatim>\<open>AddFolder(folder)\<close>. The argument is the caller's own \<^verbatim>\<open>FolderSync\<close>; the id
  generated for it is written to that object before the duplicate check. The registry
  is assigned before the watcher and the configuration are touched.
\<close>

definition AddFolder :: "Env \<Rightarrow> SyncManager \<Rightarrow> Sys \<Rightarrow> FolderSync \<Rightarrow> status \<times> SyncManager \<times> Sys" where
  "AddFolder env sm sys folder =
     (if Path folder = [] then (Err EmptyPath, sm, sys)
      else case statPath env (Path folder) of
        None \<Rightarrow> (Err PathError, sm, sys)
      | Some isDir \<Rightarrow>
          if \<not> isDir then (Err NotADirectory, sm, sys)
          else
            (let folder = (if ID folder = [] then folder\<lparr>ID := newUUID env\<rparr> else folder)
             in if list_ex (\<lambda>(fid, f). Path f = Path folder) (folders sm)
                then (Err AlreadyAdded, sm, sys)
                else
                  (let sm = sm\<lparr>folders := AList.update (ID folder) folder (folders sm)\<rparr>;
                       (werr, w) =
                         (case watcher sm of
                            Some fw \<Rightarrow>
                              if Enabled folder
                              then (case watcherAddFolder env fw (Path folder) (ExcludePatterns folder) of
                                      (e, fw') \<Rightarrow> (e, Some fw'))
                              else (None, Some fw)
                          | None \<Rightarrow> (None, None));
                       sm = sm\<lparr>watcher := w\<rparr>
                   in case werr of
                        Some e \<Rightarrow> (Err WatchFailed, sm, sys)
                      | None \<Rightarrow>
                          (let syncFolder = \<lparr>LocalPath = Path folder,
                                             RemotePath = ID folder,
                                             cfExcludePatterns = ExcludePatterns folder,
                                             cfEnabled = Enabled folder\<rparr>
                           in case SetSyncFolder (config sm) (ID folder) syncFolder of
                                Panic \<Rightarrow> (Panics, sm, sys)
                              | Return cfg \<Rightarrow>
                                  (let sm = sm\<lparr>config := cfg\<rparr>
                                   in case SaveConfig env sys cfg of
                                        (Some e, sys') \<Rightarrow> (Err SaveFailed, sm, sys')
                                      | (None, sys') \<Rightarrow> (NoError, sm, sys'))))))"





subsection \<open>Full scan and two-way reconciliation\<close>

text \<open>
  The callback of the walk of \<^verbatim>\<open>syncFolder\<close>, entry by entry: an entry with an error,
  or a path \<^verbatim>\<open>filepath.Rel\<close> rejects, ends the walk with that error; a directory and an
  excluded file are passed over; every other file goes to \<^verbatim>\<open>QueueFile\<close>, whose error is
  logged.
\<close>

fun uploadScan :: "Env \<Rightarrow> FolderSync \<Rightarrow> WalkEntry list \<Rightarrow> Uploader \<Rightarrow> status \<times> Uploader" where
  "uploadScan env folder [] u = (NoError, u)"
| "uploadScan env folder (e # es) u =
     (if weErr e then (Err WalkFailed, u)
      else if weIsDir e then uploadScan env folder es u
      else case rel (envLib env) (Path folder) (wePath e) of
        None \<Rightarrow> (Err WalkFailed, u)
      | Some relPath \<Rightarrow>
          if ShouldExclude (envMatch env) relPath (ExcludePatterns folder)
          then uploadScan env folder es u
          else (case QueueFile (envLib env) (timeNow env) u (wePath e) (Path folder) of
                  (Panics, u') \<Rightarrow> (Panics, u')
                | (st, u') \<Rightarrow> uploadScan env folder es u'))"

text \<open>
  The callback of the walk of \<^verbatim>\<open>downloadFromRemote\<close>, which always returns nil: it
  records the modification time of every file that is not excluded under its path
  relative to the folder.
\<close>

definition recordLocal ::
  "Env \<Rightarrow> FolderSync \<Rightarrow> WalkEntry \<Rightarrow> (string \<Rightarrow> nat option) \<Rightarrow> (string \<Rightarrow> nat option)" where
  "recordLocal env folder e localFiles =
     (if weErr e then localFiles
      else if \<not> weIsDir e then
        (case rel (envLib env) (Path folder) (wePath e) of
           None \<Rightarrow> localFiles
         | Some relPath \<Rightarrow>
             if ShouldExclude (envMatch env) relPath (ExcludePatterns folder) then localFiles
             else localFiles(relPath \<mapsto> weModTime e))
      else localFiles)"

definition TrimPrefix :: "string \<Rightarrow> string \<Rightarrow> string" where
  "TrimPrefix str prefix =
     (if take (length prefix) str = prefix then drop (length prefix) str else str)"

text \<open>
  The test of the download loop: the remote object's path relative to the folder is
  looked up in the recorded local files.
\<close>

definition remotePathOf :: "FolderSync \<Rightarrow> FileInfo \<Rightarrow> string" where
  "remotePathOf folder remoteFile = TrimPrefix (fiKey remoteFile) (ID folder @ ''/'')"

definition needsDownload :: "(string \<Rightarrow> nat option) \<Rightarrow> FolderSync \<Rightarrow> FileInfo \<Rightarrow> bool" where
  "needsDownload localFiles folder remoteFile =
     (case localFiles (remotePathOf folder remoteFile) of
        None \<Rightarrow> True
      | Some localModTime \<Rightarrow> localModTime < fiLastModified remoteFile)"

text \<open>
  The body of the download loop for one remote object, after the check of the context.
  \<^verbatim>\<open>os.Create\<close> leaves an empty file with the current time; the bytes
  \<^verbatim>\<open>DownloadFile\<close> writes become its content whether or not it returns an error.
\<close>

definition downloadOne ::
  "Env \<Rightarrow> FolderSync \<Rightarrow> (string \<Rightarrow> nat option) \<Rightarrow> FileInfo \<Rightarrow> SyncStats \<times> Sys \<Rightarrow> SyncStats \<times> Sys" where
  "downloadOne env folder localFiles remoteFile acc =
     (case acc of (st, sys) \<Rightarrow>
        if needsDownload localFiles folder remoteFile then
          (let remotePath = remotePathOf folder remoteFile;
               localPath = joinPath env (Path folder) remotePath
           in if mkdirAllFails env (dirOf env localPath) then (st, sys)
              else if createFails env localPath then (st\<lparr>Errors := Errors st + 1\<rparr>, sys)
              else
                (let sys = sys\<lparr>files := (files sys)(localPath \<mapsto>
                                   \<lparr>fileContent = [], fileModTime = timeNow env\<rparr>)\<rparr>;
                     (written, failed) = remoteGet env (fiKey remoteFile);
                     sys = sys\<lparr>storageCalls := storageCalls sys @ [DownloadFileCall (fiKey remoteFile)],
                                 files := (files sys)(localPath \<mapsto>
                                   \<lparr>fileContent = written, fileModTime = timeNow env\<rparr>)\<rparr>
                 in if failed then (st\<lparr>Errors := Errors st + 1\<rparr>, sys)
                    else
                      (let st = st\<lparr>FilesDownloaded := FilesDownloaded st + 1,
                                    BytesDownloaded := BytesDownloaded st + fiSize remoteFile\<rparr>
                       in if chtimesFails env localPath then (st, sys)
                          else (st, sys\<lparr>files := (files sys)(localPath \<mapsto>
                                  \<lparr>fileContent = written,
                                   fileModTime = fiLastModified remoteFile\<rparr>)\<rparr>))))
        else (st, sys))"

text \<open>
  The download loop. \<open>ctx i\<close> says whether the context is found done at the check made
  before the \<open>i\<close>-th remote object.
\<close>

fun downloadLoop ::
  "Env \<Rightarrow> (nat \<Rightarrow> bool) \<Rightarrow> FolderSync \<Rightarrow> (string \<Rightarrow> nat option) \<Rightarrow> nat \<Rightarrow> FileInfo list
   \<Rightarrow> SyncStats \<times> Sys \<Rightarrow> error option \<times> SyncStats \<times> Sys" where
  "downloadLoop env ctx folder localFiles i [] acc = (None, acc)"
| "downloadLoop env ctx folder localFiles i (remoteFile # remoteFiles) acc =
     (if ctx i then (Some ContextCanceled, acc)
      else downloadLoop env ctx folder localFiles (Suc i) remoteFiles
             (downloadOne env folder localFiles remoteFile acc))"

definition localFilesOf :: "Env \<Rightarrow> Sys \<Rightarrow> FolderSync \<Rightarrow> (string \<Rightarrow> nat option)" where
  "localFilesOf env sys folder =
     fold (recordLocal env folder) (walkEntries env (files sys) (Path folder)) Map.empty"

definition downloadFromRemote ::
  "Env \<Rightarrow> (nat \<Rightarrow> bool) \<Rightarrow> SyncManager \<Rightarrow> Sys \<Rightarrow> FolderSync \<Rightarrow> error option \<times> SyncManager \<times> Sys" where
  "downloadFromRemote env ctx sm sys folder =
     (let sys = sys\<lparr>storageCalls := storageCalls sys @ [ListFilesCall (ID folder)]\<rparr>
      in case remoteList env (ID folder) of
           None \<Rightarrow> (Some ListFailed, sm, sys)
         | Some remoteFiles \<Rightarrow>
             (let localFiles = localFilesOf env sys folder
              in case downloadLoop env ctx folder localFiles 0 remoteFiles (stats sm, sys) of
                   (err, st, sys') \<Rightarrow> (err, sm\<lparr>stats := st\<rparr>, sys')))"

text \<open>
  \<^verbatim>\<open>syncFolder(ctx, folder)\<close>: \<open>fid\<close> is the registry key of the pointer \<^verbatim>\<open>folder\<close>, and
  \<open>folder\<close> what it leads to when the call starts.
\<close>

definition syncFolder ::
  "Env \<Rightarrow> (nat \<Rightarrow> bool) \<Rightarrow> SyncManager \<Rightarrow> Sys \<Rightarrow> string \<Rightarrow> FolderSync \<Rightarrow> status \<times> SyncManager \<times> Sys" where
  "syncFolder env ctx sm sys fid folder =
     (let sm = sm\<lparr>state := SyncStateSyncing\<rparr>
      in case uploadScan env folder (walkEntries env (files sys) (Path folder)) (uploader sm) of
           (Panics, u) \<Rightarrow> (Panics, sm\<lparr>uploader := u\<rparr>, sys)
         | (Err e, u) \<Rightarrow> (Err WalkFailed, sm\<lparr>uploader := u\<rparr>, sys)
         | (NoError, u) \<Rightarrow>
             (let folder = folder\<lparr>LastSync := timeNow env\<rparr>;
                  sm = sm\<lparr>uploader := u, folders := AList.update fid folder (folders sm)\<rparr>
              in if TwoWaySync folder then
                   (case downloadFromRemote env ctx sm sys folder of
                      (Some e, sm', sys') \<Rightarrow> (Err DownloadFromRemoteFailed, sm', sys')
                    | (None, sm', sys') \<Rightarrow> (NoError, sm', sys'))
                 else (NoError, sm, sys)))"

text \<open>
  \<^verbatim>\<open>FullSync(ctx)\<close>: the enabled folders are collected first, then synced one after
  the other (in the order of the model's list; Go's map order is not fixed). A folder
  that fails is counted and the loop goes on; the deferred function sets the state back
  to idle, also when a panic passes through.
\<close>

fun syncFolders ::
  "Env \<Rightarrow> (nat \<Rightarrow> bool) \<Rightarrow> (string \<times> FolderSync) list \<Rightarrow> SyncManager \<Rightarrow> Sys \<Rightarrow> status \<times> SyncManager \<times> Sys" where
  "syncFolders env ctx [] sm sys = (NoError, sm, sys)"
| "syncFolders env ctx ((fid, folder) # rest) sm sys =
     (case syncFolder env ctx sm sys fid folder of
        (Panics, sm', sys') \<Rightarrow> (Panics, sm', sys')
      | (Err e, sm', sys') \<Rightarrow>
          syncFolders env ctx rest (sm'\<lparr>stats := (stats sm')\<lparr>Errors := Errors (stats sm') + 1\<rparr>\<rparr>) sys'
      | (NoError, sm', sys') \<Rightarrow> syncFolders env ctx rest sm' sys')"

definition FullSync :: "Env \<Rightarrow> (nat \<Rightarrow> bool) \<Rightarrow> SyncManager \<Rightarrow> Sys \<Rightarrow> status \<times> SyncManager \<times> Sys" where
  "FullSync env ctx sm sys =
     (let sm = sm\<lparr>state := SyncStateScanning\<rparr>;
          enabledFolders = filter (\<lambda>(fid, folder). Enabled folder) (folders sm)
      in case syncFolders env ctx enabledFolders sm sys of
           (Panics, sm', sys') \<Rightarrow> (Panics, sm'\<lparr>state := SyncStateIdle\<rparr>, sys')
         | (st, sm', sys') \<Rightarrow>
             (NoError,
              sm'\<lparr>stats := (stats sm')\<lparr>LastSyncTime := timeNow env\<rparr>, state := SyncStateIdle\<rparr>,
              sys'))"

subsection \<open>Names used in the statements about reconciliation\<close>

text \<open>
  The local path \<^verbatim>\<open>filepath.Join(folder.Path, remotePath)\<close> of a remote object; whether
  \<^verbatim>\<open>os.MkdirAll\<close> and \<^verbatim>\<open>os.Create\<close> both succeed for it, so that the loop reaches
  \<^verbatim>\<open>DownloadFile\<close>; and the file a download that succeeds leaves behind once
  \<^verbatim>\<open>os.Chtimes\<close> has run.
\<close>

definition localPathOf :: "Env \<Rightarrow> FolderSync \<Rightarrow> FileInfo \<Rightarrow> string" where
  "localPathOf env folder remoteFile = joinPath env (Path folder) (remotePathOf folder remoteFile)"

definition creatable :: "Env \<Rightarrow> FolderSync \<Rightarrow> FileInfo \<Rightarrow> bool" where
  "creatable env folder remoteFile \<longleftrightarrow>
     \<not> mkdirAllFails env (dirOf env (localPathOf env folder remoteFile))
     \<and> \<not> createFails env (localPathOf env folder remoteFile)"

definition downloadedFile :: "Env \<Rightarrow> FileInfo \<Rightarrow> LocalFile" where
  "downloadedFile env remoteFile =
     \<lparr>fileContent = fst (remoteGet env (fiKey remoteFile)),
      fileModTime = fiLastModified remoteFile\<rparr>"


section \<open>Example values\<close>

text \<open>Concrete values on which the theorems below are run.\<close>

text \<open>
  Library functions for the examples. \<open>relUnder\<close> agrees with \<^verbatim>\<open>filepath.Rel\<close> when the
  base is a clean path and the target is the base followed by \<^verbatim>\<open>/\<close> and a clean
  relative path; elsewhere it reports an error. The separator is that of a Unix host.
  The extension, the hash and the two formats, whose values no theorem below reads, are
  the empty string.
\<close>

definition relUnder :: "string \<Rightarrow> string \<Rightarrow> string option" where
  "relUnder base target =
     (if take (length base + 1) target = base @ ''/'' \<and> length base + 1 < length target
      then Some (drop (length base + 1) target) else None)"

definition exampleLib :: Lib where
  "exampleLib = \<lparr>rel = relUnder, separator = CHR ''/'', ext = (\<lambda>p. []),
              sha256hex = (\<lambda>c. []), sprintInt = (\<lambda>n. []), rfc3339 = (\<lambda>t. [])\<rparr>"

definition exampleTask :: UploadTask where
  "exampleTask = \<lparr>FilePath = ''/data/docs/a.txt'', Key = ''a.txt'', FolderID = [],
                   Priority = 1, Metadata = Some [], RetryCount = 0, LastAttempt = 0\<rparr>"

definition exampleEnv :: Env where
  "exampleEnv =
     \<lparr>envLib = exampleLib,
      envMatch = literalMatch,
      statPath = (\<lambda>p. if p = ''/data/docs'' \<or> p = ''/data/music'' then Some True
                       else if p = ''/data/notes.txt'' then Some False else None),
      walkEntries = (\<lambda>fs root. []),
      joinPath = (\<lambda>a b. a @ ''/'' @ b),
      dirOf = (\<lambda>p. p),
      mkdirAllFails = (\<lambda>p. False),
      createFails = (\<lambda>p. False),
      chtimesFails = (\<lambda>p. False),
      writeFails = (\<lambda>p. False),
      watchFails = (\<lambda>p. False),
      remoteList = (\<lambda>prefix. Some []),
      remoteGet = (\<lambda>k. ([], False)),
      timeNow = 1000,
      newUUID = ''generated-id'',
      randomID = ''device''\<rparr>"

definition exampleSys :: Sys where
  "exampleSys = \<lparr>files = Map.empty, disk = (\<lambda>p. NotExist), storageCalls = []\<rparr>"

definition exampleConfig :: Config where
  "exampleConfig =
     \<lparr>Folders = Some [(''f1'', \<lparr>LocalPath = ''/data/docs'', RemotePath = ''f1'',
                                cfExcludePatterns = [], cfEnabled = True\<rparr>)],
      IntervalMinutes = 15, AutoSync = True, filePath = ''/etc/sync/config.json''\<rparr>"

definition exampleManager :: SyncManager where
  "exampleManager = NewSyncManager exampleEnv exampleConfig (Start (NewUploader OtherValue))"

text \<open>
  A world in which no file can be opened, a world in which the backend rejects the
  transfer made at time 0 and accepts every later one, and a worker that starts with
  the example task as the only task of the queue.
\<close>

definition failingWorld :: "nat \<Rightarrow> World" where
  "failingWorld t = \<lparr>openFile = (\<lambda>p. None), uploadFile = (\<lambda>k c m. None)\<rparr>"


definition exampleRun :: WorkerState where
  "exampleRun = \<lparr>up = snd (QueueUpload (Start (NewUploader OtherValue)) exampleTask),
                  clock = 0, attempted = []\<rparr>"


definition exampleFolder :: "string \<Rightarrow> string \<Rightarrow> FolderSync" where
  "exampleFolder fid path =
     \<lparr>ID = fid, Path = path, ExcludePatterns = [], LastSync = 0, TwoWaySync = False, Enabled = True\<rparr>"

text \<open>
  A folder tree with three files, of which \<^verbatim>\<open>b.tmp\<close> is excluded by the two-way folder
  below, and a backend that lists four objects under \<^verbatim>\<open>f1\<close>: one newer than its local
  file, one at the path of the excluded file, one with no local file and one older than
  its local file.
\<close>

definition scanEnv :: Env where
  "scanEnv = exampleEnv
     \<lparr>walkEntries := (\<lambda>fs root.
        if root = ''/data/docs''
        then \<lparr>wePath = ''/data/docs'', weIsDir = True, weModTime = 10, weErr = False\<rparr>
             # concat (map (\<lambda>p. case fs p of
                                    None \<Rightarrow> []
                                  | Some f \<Rightarrow> [\<lparr>wePath = p, weIsDir = False,
                                                weModTime = fileModTime f, weErr = False\<rparr>])
                        [''/data/docs/a.txt'', ''/data/docs/b.tmp'', ''/data/docs/d.txt''])
        else []),
      remoteList := (\<lambda>prefix.
        if prefix = ''f1''
        then Some [\<lparr>fiKey = ''f1/a.txt'', fiSize = 3, fiLastModified = 200, fiETag = []\<rparr>,
                   \<lparr>fiKey = ''f1/b.tmp'', fiSize = 3, fiLastModified = 50, fiETag = []\<rparr>,
                   \<lparr>fiKey = ''f1/c.txt'', fiSize = 3, fiLastModified = 60, fiETag = []\<rparr>,
                   \<lparr>fiKey = ''f1/d.txt'', fiSize = 3, fiLastModified = 70, fiETag = []\<rparr>]
        else Some []),
      remoteGet := (\<lambda>k. (''remote '' @ k, False))\<rparr>"

definition scanSys :: Sys where
  "scanSys =
     \<lparr>files = [''/data/docs/a.txt'' \<mapsto> \<lparr>fileContent = ''old a'', fileModTime = 100\<rparr>,
               ''/data/docs/b.tmp'' \<mapsto> \<lparr>fileContent = ''local b'', fileModTime = 100\<rparr>,
               ''/data/docs/d.txt'' \<mapsto> \<lparr>fileContent = ''local d'', fileModTime = 100\<rparr>],
      disk = (\<lambda>p. NotExist),
      storageCalls = []\<rparr>"

definition twoWayFolder :: FolderSync where
  "twoWayFolder = \<lparr>ID = ''f1'', Path = ''/data/docs'', ExcludePatterns = [''b.tmp''],
                    LastSync = 0, TwoWaySync = True, Enabled = True\<rparr>"



section \<open>Theorems\<close>

subsection \<open>PathMatcher\<close>

lemma ShouldExclude_iff:
  "ShouldExclude match path patterns = list_ex (\<lambda>p. match p path = Inr True) patterns"
  by (induction patterns) (auto split: sum.splits)

text \<open>
  C8. For every relative path and every pattern list the exclude matcher returns a
  boolean and no error: the result is true exactly when some pattern of the list
  matches the path, a pattern that fails to compile counts as not matching, and the
  result is the one the list gives with the failing patterns taken out, so the patterns
  after a failing one are still evaluated.
\<close>

theorem ShouldExclude_skips_bad_patterns:
  "ShouldExclude match path patterns = (\<exists>p \<in> set patterns. match p path = Inr True)
   \<and> ShouldExclude match path patterns
       = ShouldExclude match path (filter (\<lambda>p. \<not> isl (match p path)) patterns)
   \<and> ShouldExclude match path (ps @ [bad] @ qs)
       = (case match bad path of
            Inl err \<Rightarrow> ShouldExclude match path (ps @ qs)
          | Inr matched \<Rightarrow> ShouldExclude match path (ps @ [bad] @ qs))"
proof -
  have a: "ShouldExclude match path patterns = (\<exists>p \<in> set patterns. match p path = Inr True)"
    by (simp add: ShouldExclude_iff list_ex_iff)
  have b: "ShouldExclude match path patterns
       = ShouldExclude match path (filter (\<lambda>p. \<not> isl (match p path)) patterns)"
    by (induction patterns) (auto split: sum.splits)
  have c: "ShouldExclude match path (ps @ [bad] @ qs)
       = (case match bad path of
            Inl err \<Rightarrow> ShouldExclude match path (ps @ qs)
          | Inr matched \<Rightarrow> ShouldExclude match path (ps @ [bad] @ qs))"
    by (auto simp: ShouldExclude_iff list_ex_iff split: sum.splits)
  from a b c show ?thesis by blast
qed

theorem ShouldExclude_skips_bad_patterns_witness:
  "ShouldExclude literalMatch ''a.tmp'' [''['', ''a.tmp''] = True
   \<and> ShouldExclude literalMatch ''a.txt'' [''['', ''a.tmp''] = False
   \<and> ShouldExclude literalMatch ''a.txt'' [''[''] = False"
  using ShouldExclude_skips_bad_patterns [of literalMatch "''a.tmp''" "[''['', ''a.tmp'']"]
  by (simp add: literalMatch_def)

subsection \<open>UploadPipeline: the queue\<close>

text \<open>
  \<^verbatim>\<open>QueueUpload\<close> on an open task queue of capacity 1000, the capacity \<^verbatim>\<open>NewUploader\<close>
  gives it: with fewer than 1000 tasks in the queue the task is put at its end and nil
  is returned, and with 1000 the queue-full error is returned at once and the uploader
  is unchanged. Either way the queue stays open with capacity 1000.
\<close>

theorem QueueUpload_nonblocking:
  assumes "\<not> closed (taskQueue u)" and "cap (taskQueue u) = 1000"
  shows "QueueUpload u task =
           (if length (buf (taskQueue u)) < 1000
            then (NoError, u\<lparr>taskQueue := (taskQueue u)\<lparr>buf := buf (taskQueue u) @ [task]\<rparr>\<rparr>)
            else (Err QueueFull, u))
         \<and> \<not> closed (taskQueue (snd (QueueUpload u task)))
         \<and> cap (taskQueue (snd (QueueUpload u task))) = 1000
         \<and> cap (taskQueue (NewUploader cfg)) = 1000
         \<and> \<not> closed (taskQueue (NewUploader cfg))"
  using assms
  by (auto simp: QueueUpload_def trySend_def NewUploader_def makeChan_def Let_def
           split: cfgValue.splits)

theorem QueueUpload_nonblocking_witness:
  "QueueUpload (NewUploader OtherValue) exampleTask
     = (NoError,
        (NewUploader OtherValue)\<lparr>taskQueue :=
           (taskQueue (NewUploader OtherValue))\<lparr>buf := [exampleTask]\<rparr>\<rparr>)"
proof -
  have open_q: "\<not> closed (taskQueue (NewUploader OtherValue))"
    by (simp add: NewUploader_def makeChan_def)
  have cap_q: "cap (taskQueue (NewUploader OtherValue)) = 1000"
    by (simp add: NewUploader_def makeChan_def)
  have empty_q: "buf (taskQueue (NewUploader OtherValue)) = []"
    by (simp add: NewUploader_def makeChan_def)
  show ?thesis
    using QueueUpload_nonblocking [OF open_q cap_q, of exampleTask] empty_q
    by simp
qed

text \<open>
  C3. queueUpload is to enqueue the task and return nil whenever the queue holds fewer
  than 1000 tasks, and to return the queue-full error otherwise. On an uploader that was
  started and stopped the queue holds no task, and \<^verbatim>\<open>QueueUpload\<close> neither enqueues nor
  returns: \<^verbatim>\<open>Stop\<close> has closed the task queue, \<^verbatim>\<open>QueueUpload\<close> does not test
  \<^verbatim>\<open>u.running\<close>, and the send on the closed channel panics. \<^verbatim>\<open>QueueFile\<close>, which does
  test it, returns the not-running error on the same uploader.
\<close>

theorem QueueUpload_after_Stop_panics:
  "length (buf (taskQueue (Stop (Start (NewUploader OtherValue))))) < 1000
   \<and> QueueUpload (Stop (Start (NewUploader OtherValue))) exampleTask
       = (Panics, Stop (Start (NewUploader OtherValue)))
   \<and> QueueFile exampleLib 1000 (Stop (Start (NewUploader OtherValue))) ''/data/docs/a.txt'' ''/data/docs''
       = (Err NotRunning, Stop (Start (NewUploader OtherValue)))"
  by (simp add: QueueUpload_def QueueFile_def trySend_def Stop_def Start_def NewUploader_def
                makeChan_def closeChan_def)

subsection \<open>SyncOrchestrator: addFolder\<close>

text \<open>
  C6. addFolder with a path that does not exist, a path that is not a directory, or a
  local path already registered under a different folder id fails with a validation
  error, and the manager (its registry included) and the world are exactly as they were
  before the call.
\<close>

theorem AddFolder_rejects_invalid:
  assumes "statPath env (Path folder) = None
           \<or> statPath env (Path folder) = Some False
           \<or> (\<exists>(fid, f) \<in> set (folders sm). Path f = Path folder \<and> fid \<noteq> ID folder)"
  shows "\<exists>e \<in> {EmptyPath, PathError, NotADirectory, AlreadyAdded}.
           AddFolder env sm sys folder = (Err e, sm, sys)"
proof -
  have dup: "list_ex (\<lambda>(fid, f). Path f = Path folder') (folders sm)"
    if "\<exists>(fid, f) \<in> set (folders sm). Path f = Path folder" and "Path folder' = Path folder"
    for folder'
    using that by (auto simp: list_ex_iff)
  show ?thesis
  proof (cases "Path folder = []")
    case True
    then show ?thesis by (simp add: AddFolder_def)
  next
    case False
    show ?thesis
    proof (cases "statPath env (Path folder)")
      case None
      with False show ?thesis by (simp add: AddFolder_def)
    next
      case (Some isDir)
      show ?thesis
      proof (cases isDir)
        case False
        with Some \<open>Path folder \<noteq> []\<close> show ?thesis by (simp add: AddFolder_def)
      next
        case True
        with Some assms have "\<exists>(fid, f) \<in> set (folders sm). Path f = Path folder"
          by auto
        then have "list_ex (\<lambda>(fid, f). Path f = Path folder) (folders sm)"
          by (auto simp: list_ex_iff)
        with True Some \<open>Path folder \<noteq> []\<close> show ?thesis
          by (simp add: AddFolder_def Let_def)
      qed
    qed
  qed
qed

theorem AddFolder_rejects_invalid_witness:
  "AddFolder exampleEnv exampleManager exampleSys (exampleFolder ''f2'' ''/data/missing'')
     = (Err PathError, exampleManager, exampleSys)
   \<and> AddFolder exampleEnv exampleManager exampleSys (exampleFolder ''f2'' ''/data/notes.txt'')
     = (Err NotADirectory, exampleManager, exampleSys)
   \<and> AddFolder exampleEnv exampleManager exampleSys (exampleFolder ''f2'' ''/data/docs'')
     = (Err AlreadyAdded, exampleManager, exampleSys)"
proof -
  have missing: "statPath exampleEnv (Path (exampleFolder ''f2'' ''/data/missing'')) = None"
    by (simp add: exampleEnv_def exampleFolder_def)
  have notdir: "statPath exampleEnv (Path (exampleFolder ''f2'' ''/data/notes.txt'')) = Some False"
    by (simp add: exampleEnv_def exampleFolder_def)
  have reg: "folders exampleManager = [(''f1'', (exampleFolder ''f1'' ''/data/docs''))]"
    by (simp add: exampleManager_def NewSyncManager_def exampleConfig_def GetAllFolders_def
                  folderFromConfig_def exampleFolder_def)
  have dup: "\<exists>(fid, f) \<in> set (folders exampleManager).
               Path f = Path (exampleFolder ''f2'' ''/data/docs'') \<and> fid \<noteq> ID (exampleFolder ''f2'' ''/data/docs'')"
    by (simp add: reg exampleFolder_def)
  have dir: "statPath exampleEnv ''/data/docs'' = Some True"
    by (simp add: exampleEnv_def)
  from AddFolder_rejects_invalid [of exampleEnv "exampleFolder ''f2'' ''/data/missing''" exampleManager exampleSys]
    missing
  have a: "AddFolder exampleEnv exampleManager exampleSys (exampleFolder ''f2'' ''/data/missing'')
     = (Err PathError, exampleManager, exampleSys)"
    by (auto simp: AddFolder_def exampleFolder_def)
  from AddFolder_rejects_invalid [of exampleEnv "exampleFolder ''f2'' ''/data/notes.txt''" exampleManager exampleSys]
    notdir
  have b: "AddFolder exampleEnv exampleManager exampleSys (exampleFolder ''f2'' ''/data/notes.txt'')
     = (Err NotADirectory, exampleManager, exampleSys)"
    by (auto simp: AddFolder_def exampleFolder_def)
  from AddFolder_rejects_invalid [of exampleEnv "exampleFolder ''f2'' ''/data/docs''" exampleManager exampleSys]
    dup dir reg
  have c: "AddFolder exampleEnv exampleManager exampleSys (exampleFolder ''f2'' ''/data/docs'')
     = (Err AlreadyAdded, exampleManager, exampleSys)"
    by (auto simp: AddFolder_def exampleFolder_def Let_def)
  from a b c show ?thesis by simp
qed

text \<open>
  C10. addFolder is not atomic past validation: when the folder passes the path and
  duplicate checks and then the watch registration fails, or the configuration cannot
  be saved, addFolder returns an error and the folder (with the id generated for it, if
  it came without one) is nevertheless in the registry.
\<close>

theorem AddFolder_keeps_folder_on_late_failure:
  assumes "Path folder \<noteq> []"
    and "statPath env (Path folder) = Some True"
    and "\<not> list_ex (\<lambda>(fid, f). Path f = Path folder) (folders sm)"
    and "(\<exists>fw. watcher sm = Some fw \<and> Enabled folder \<and> watchFails env (Path folder))
         \<or> (Folders (config sm) \<noteq> None
             \<and> (filePath (config sm) = [] \<or> writeFails env (filePath (config sm))))"
    and "folder' = (if ID folder = [] then folder\<lparr>ID := newUUID env\<rparr> else folder)"
  shows "\<exists>e sm' sys'. AddFolder env sm sys folder = (Err e, sm', sys')
           \<and> (e = WatchFailed \<or> e = SaveFailed)
           \<and> map_of (folders sm') (ID folder') = Some folder'"
proof (cases "\<exists>fw. watcher sm = Some fw \<and> Enabled folder \<and> watchFails env (Path folder)")
  case True
  then obtain fw where "watcher sm = Some fw" "Enabled folder" "watchFails env (Path folder)"
    by blast
  with assms(1-3,5) show ?thesis
    by (simp add: AddFolder_def Let_def watcherAddFolder_def update_conv')
next
  case False
  with assms(4) obtain fs where fs: "Folders (config sm) = Some fs"
    and save: "filePath (config sm) = [] \<or> writeFails env (filePath (config sm))"
    by auto
  from False have nowatch:
    "(case watcher sm of
        Some fw \<Rightarrow>
          if Enabled folder'
          then (case watcherAddFolder env fw (Path folder') (ExcludePatterns folder') of
                  (e, fw') \<Rightarrow> (e, Some fw'))
          else (None, Some fw)
      | None \<Rightarrow> (None, None)) = (None, (case watcher sm of
        Some fw \<Rightarrow>
          if Enabled folder'
          then Some (fw\<lparr>watched := AList.update (Path folder') (ExcludePatterns folder') (watched fw)\<rparr>)
          else Some fw
      | None \<Rightarrow> None))"
    using assms(5) by (auto simp: watcherAddFolder_def split: option.splits)
  have p: "Path folder' = Path folder" "Path folder' \<noteq> []"
    using assms(1,5) by auto
  show ?thesis
    using assms(1-3) fs save p nowatch
    unfolding AddFolder_def assms(5)[symmetric] Let_def
    by (auto simp: SetSyncFolder_def SaveConfig_def update_conv' assms(5)[symmetric]
             split: option.splits)
qed

theorem AddFolder_keeps_folder_on_late_failure_witness:
  "(\<exists>e sm' sys'.
      AddFolder (exampleEnv\<lparr>watchFails := (\<lambda>p. True)\<rparr>)
                (exampleManager\<lparr>watcher := Some \<lparr>watched = []\<rparr>\<rparr>) exampleSys
                (exampleFolder ''f2'' ''/data/music'') = (Err e, sm', sys')
      \<and> (e = WatchFailed \<or> e = SaveFailed)
      \<and> map_of (folders sm') ''f2'' = Some (exampleFolder ''f2'' ''/data/music''))
   \<and> (\<exists>e sm' sys'.
      AddFolder exampleEnv (exampleManager\<lparr>config := DefaultConfig\<rparr>) exampleSys
                (exampleFolder ''f2'' ''/data/music'') = (Err e, sm', sys')
      \<and> (e = WatchFailed \<or> e = SaveFailed)
      \<and> map_of (folders sm') ''f2'' = Some (exampleFolder ''f2'' ''/data/music''))"
proof -
  have reg: "folders exampleManager = [(''f1'', (exampleFolder ''f1'' ''/data/docs''))]"
    by (simp add: exampleManager_def NewSyncManager_def exampleConfig_def GetAllFolders_def
                  folderFromConfig_def exampleFolder_def)
  let ?f = "exampleFolder ''f2'' ''/data/music''"
  let ?env1 = "exampleEnv\<lparr>watchFails := (\<lambda>p. True)\<rparr>"
  let ?sm1 = "exampleManager\<lparr>watcher := Some \<lparr>watched = []\<rparr>\<rparr>"
  let ?sm2 = "exampleManager\<lparr>config := DefaultConfig\<rparr>"
  have h1: "Path ?f \<noteq> []" by (simp add: exampleFolder_def)
  have h2: "statPath ?env1 (Path ?f) = Some True" "statPath exampleEnv (Path ?f) = Some True"
    by (simp_all add: exampleEnv_def exampleFolder_def)
  have h3: "\<not> list_ex (\<lambda>(fid, f). Path f = Path ?f) (folders ?sm1)"
     "\<not> list_ex (\<lambda>(fid, f). Path f = Path ?f) (folders ?sm2)"
    by (simp_all add: reg exampleFolder_def)
  have h4: "(\<exists>fw. watcher ?sm1 = Some fw \<and> Enabled ?f \<and> watchFails ?env1 (Path ?f))
         \<or> (Folders (config ?sm1) \<noteq> None
             \<and> (filePath (config ?sm1) = [] \<or> writeFails ?env1 (filePath (config ?sm1))))"
    by (simp add: exampleFolder_def)
  have h5: "(\<exists>fw. watcher ?sm2 = Some fw \<and> Enabled ?f \<and> watchFails exampleEnv (Path ?f))
         \<or> (Folders (config ?sm2) \<noteq> None
             \<and> (filePath (config ?sm2) = [] \<or> writeFails exampleEnv (filePath (config ?sm2))))"
    by (simp add: DefaultConfig_def)
  have h6: "?f = (if ID ?f = [] then ?f\<lparr>ID := newUUID env\<rparr> else ?f)" for env
    by (simp add: exampleFolder_def)
  have idf: "ID ?f = ''f2''" by (simp add: exampleFolder_def)
  from AddFolder_keeps_folder_on_late_failure [OF h1 h2(1) h3(1) h4 h6, of exampleSys]
       AddFolder_keeps_folder_on_late_failure [OF h1 h2(2) h3(2) h5 h6, of exampleSys]
  show ?thesis
    unfolding idf by blast
qed

subsection \<open>UploadPipeline: the throttled reader\<close>









subsection \<open>UploadPipeline: the worker\<close>

lemma worker_empty:
  "buf (taskQueue (up s)) = [] \<Longrightarrow>
   worker lib world s = (if closed (taskQueue (up s)) then Finished else Waiting, s)"
  by (subst worker.simps) simp

lemma worker_cons:
  "buf (taskQueue (up s)) = task # rest \<Longrightarrow>
   worker lib world s =
     (case workerBody lib world (s\<lparr>up := (up s)\<lparr>taskQueue := (taskQueue (up s))\<lparr>buf := rest\<rparr>\<rparr>\<rparr>) task of
        (None, s') \<Rightarrow> worker lib world s'
      | (Some e, s') \<Rightarrow> (e, s'))"
  by (subst worker.simps) simp

lemma processUpload_Task:
  "RetryCount (Task (processUpload lib w u task)) = RetryCount task
   \<and> FilePath (Task (processUpload lib w u task)) = FilePath task
   \<and> Key (Task (processUpload lib w u task)) = Key task"
  by (simp add: processUpload_def Let_def split: option.splits)

lemma processUpload_any_uploader:
  "processUpload lib w u task = processUpload lib w u' task"
  by (simp add: processUpload_def)

text \<open>One pass of the loop body when the context is live and the result channel has room.\<close>

lemma workerBody_live:
  assumes "\<not> ctxDone (up s)" and "\<not> closed (resultChan (up s))"
    and "length (buf (resultChan (up s))) < cap (resultChan (up s))"
    and "r = processUpload lib (world (clock s)) (up s) task"
    and "s1 = s\<lparr>attempted := attempted s @ [(clock s, task)],
                 up := (up s)\<lparr>resultChan := (resultChan (up s))\<lparr>buf := buf (resultChan (up s)) @ [r]\<rparr>\<rparr>\<rparr>"
  shows "workerBody lib world s task =
     (if \<not> Success r \<and> RetryCount task < 3 then
        (if RetryCount task < 0 then (Some Panicked, s1)
         else
           (let s2 = s1\<lparr>clock := clock s + 2 ^ nat (RetryCount task)\<rparr>
            in if closed (taskQueue (up s)) then (Some Panicked, s2)
               else if length (buf (taskQueue (up s))) < cap (taskQueue (up s))
               then (None, s2\<lparr>up := (up s2)\<lparr>taskQueue := (taskQueue (up s))\<lparr>buf :=
                       buf (taskQueue (up s)) @
                         [(Task r)\<lparr>RetryCount := RetryCount task + 1, LastAttempt := clock s\<rparr>]\<rparr>\<rparr>\<rparr>)
               else (Some BlockedOnQueue, s2)))
      else (None, s1))"
proof -
  from processUpload_Task [of lib "world (clock s)" "up s" task]
  have rc: "RetryCount (Task r) = RetryCount task"
    using assms(4) by simp
  show ?thesis
    using assms(1-3) rc
    unfolding assms(5) workerBody_def assms(4) [symmetric] Let_def trySend_def
    by simp
qed

lemma queueWork_Cons: "queueWork (task # rest) = attemptsLeft task + queueWork rest"
  by (simp add: queueWork_def)

lemma queueWork_snoc: "queueWork (rest @ [task]) = queueWork rest + attemptsLeft task"
  by (simp add: queueWork_def)

lemma worker_drains:
  assumes "\<not> ctxDone (up s)"
    and "\<not> closed (taskQueue (up s))"
    and "\<not> closed (resultChan (up s))"
    and "list_all (\<lambda>k. 0 \<le> RetryCount k) (buf (taskQueue (up s)))"
    and "length (buf (taskQueue (up s))) \<le> cap (taskQueue (up s))"
    and "length (buf (resultChan (up s))) + queueWork (buf (taskQueue (up s)))
           \<le> cap (resultChan (up s))"
  shows "\<exists>s' new. worker lib world s = (Waiting, s')
           \<and> buf (taskQueue (up s')) = []
           \<and> attempted s' = attempted s @ new
           \<and> buf (resultChan (up s'))
               = buf (resultChan (up s)) @ map (\<lambda>(t, k). processUpload lib (world t) u k) new"
  using assms
proof (induction lib world s rule: worker.induct)
  case (1 lib world s)
  note live = "1.prems"
  show ?case
  proof (cases "buf (taskQueue (up s))")
    case Nil
    with live show ?thesis by (simp add: worker_empty)
  next
    case (Cons task rest)
    define s0 where "s0 = s\<lparr>up := (up s)\<lparr>taskQueue := (taskQueue (up s))\<lparr>buf := rest\<rparr>\<rparr>\<rparr>"
    define r where "r = processUpload lib (world (clock s0)) (up s0) task"
    define s1 where "s1 = s0\<lparr>attempted := attempted s0 @ [(clock s0, task)],
        up := (up s0)\<lparr>resultChan := (resultChan (up s0))\<lparr>buf := buf (resultChan (up s0)) @ [r]\<rparr>\<rparr>\<rparr>"
    have clk: "clock s0 = clock s"
      by (simp add: s0_def)
    have r_eq: "r = processUpload lib (world (clock s)) u task"
      using processUpload_any_uploader [of lib "world (clock s)" "up s0" task u]
      by (simp only: r_def clk)
    have s0_facts: "\<not> ctxDone (up s0)" "\<not> closed (resultChan (up s0))"
      "\<not> closed (taskQueue (up s0))" "buf (taskQueue (up s0)) = rest"
      "cap (taskQueue (up s0)) = cap (taskQueue (up s))"
      "cap (resultChan (up s0)) = cap (resultChan (up s))"
      "buf (resultChan (up s0)) = buf (resultChan (up s))"
      "attempted s0 = attempted s" "clock s0 = clock s"
      using live by (simp_all add: s0_def)
    have room: "length (buf (resultChan (up s0))) < cap (resultChan (up s0))"
      using live(6) Cons by (simp add: s0_facts queueWork_Cons attemptsLeft_def)
    note body = workerBody_live [of s0 r lib world task s1, OF s0_facts(1) s0_facts(2) room r_def s1_def]
    have nonneg: "0 \<le> RetryCount task" "list_all (\<lambda>k. 0 \<le> RetryCount k) rest"
      using live(4) Cons by simp_all
    have qroom: "length rest < cap (taskQueue (up s))"
      using live(5) Cons by simp
    show ?thesis
    proof (cases "\<not> Success r \<and> RetryCount task < 3")
      case True
      define task' where "task' = (Task r)\<lparr>RetryCount := RetryCount task + 1, LastAttempt := clock s0\<rparr>"
      define s2 where "s2 = s1\<lparr>clock := clock s0 + 2 ^ nat (RetryCount task),
          up := (up s1)\<lparr>taskQueue := (taskQueue (up s0))\<lparr>buf := rest @ [task']\<rparr>\<rparr>\<rparr>"
      have b: "workerBody lib world s0 task = (None, s2)"
        using body True nonneg(1) s0_facts qroom
        by (simp add: Let_def s2_def task'_def s1_def)
      have w: "attemptsLeft task' < attemptsLeft task"
        using True nonneg(1) by (simp add: attemptsLeft_def task'_def)
      have s2_live: "\<not> ctxDone (up s2)" "\<not> closed (taskQueue (up s2))" "\<not> closed (resultChan (up s2))"
        "list_all (\<lambda>k. 0 \<le> RetryCount k) (buf (taskQueue (up s2)))"
        "length (buf (taskQueue (up s2))) \<le> cap (taskQueue (up s2))"
        "length (buf (resultChan (up s2))) + queueWork (buf (taskQueue (up s2)))
           \<le> cap (resultChan (up s2))"
        using s0_facts nonneg qroom live(6) Cons w
        by (simp_all add: s2_def s1_def task'_def queueWork_Cons queueWork_snoc)
      from "1.IH" [OF Cons _ refl, of s2] b s2_live
      obtain s' new where run: "worker lib world s2 = (Waiting, s')"
        and q: "buf (taskQueue (up s')) = []"
        and att: "attempted s' = attempted s2 @ new"
        and res: "buf (resultChan (up s'))
               = buf (resultChan (up s2)) @ map (\<lambda>(t, k). processUpload lib (world t) u k) new"
        unfolding s0_def by metis
      have "worker lib world s = (Waiting, s')"
        using worker_cons [OF Cons, of lib world] b run by (simp add: s0_def)
      moreover have "attempted s' = attempted s @ ((clock s, task) # new)"
        using att by (simp add: s2_def s1_def s0_facts)
      moreover have "buf (resultChan (up s'))
          = buf (resultChan (up s)) @ map (\<lambda>(t, k). processUpload lib (world t) u k) ((clock s, task) # new)"
        using res r_eq by (simp add: s2_def s1_def s0_facts)
      ultimately show ?thesis using q by blast
    next
      case False
      have b: "workerBody lib world s0 task = (None, s1)"
        using body False by simp
      have s1_live: "\<not> ctxDone (up s1)" "\<not> closed (taskQueue (up s1))" "\<not> closed (resultChan (up s1))"
        "list_all (\<lambda>k. 0 \<le> RetryCount k) (buf (taskQueue (up s1)))"
        "length (buf (taskQueue (up s1))) \<le> cap (taskQueue (up s1))"
        "length (buf (resultChan (up s1))) + queueWork (buf (taskQueue (up s1)))
           \<le> cap (resultChan (up s1))"
        using s0_facts nonneg qroom live(6) Cons
        by (simp_all add: s1_def queueWork_Cons attemptsLeft_def)
      from "1.IH" [OF Cons _ refl, of s1] b s1_live
      obtain s' new where run: "worker lib world s1 = (Waiting, s')"
        and q: "buf (taskQueue (up s')) = []"
        and att: "attempted s' = attempted s1 @ new"
        and res: "buf (resultChan (up s'))
               = buf (resultChan (up s1)) @ map (\<lambda>(t, k). processUpload lib (world t) u k) new"
        unfolding s0_def by metis
      have "worker lib world s = (Waiting, s')"
        using worker_cons [OF Cons, of lib world] b run by (simp add: s0_def)
      moreover have "attempted s' = attempted s @ ((clock s, task) # new)"
        using att by (simp add: s1_def s0_facts)
      moreover have "buf (resultChan (up s'))
          = buf (resultChan (up s)) @ map (\<lambda>(t, k). processUpload lib (world t) u k) ((clock s, task) # new)"
        using res r_eq by (simp add: s1_def s0_facts)
      ultimately show ?thesis using q by blast
    qed
  qed
qed

text \<open>A failed attempt on the only task of the queue, with retries left.\<close>

lemma worker_retry_step:
  assumes "\<not> ctxDone (up s)" and "\<not> closed (taskQueue (up s))" and "\<not> closed (resultChan (up s))"
    and "buf (taskQueue (up s)) = [task]"
    and "0 \<le> RetryCount task" and "RetryCount task < 3"
    and "0 < cap (taskQueue (up s))"
    and "length (buf (resultChan (up s))) < cap (resultChan (up s))"
    and "\<not> Success (processUpload lib (world (clock s)) u task)"
  shows "\<exists>s2 task'. worker lib world s = worker lib world s2
           \<and> \<not> ctxDone (up s2) \<and> \<not> closed (taskQueue (up s2)) \<and> \<not> closed (resultChan (up s2))
           \<and> buf (taskQueue (up s2)) = [task']
           \<and> RetryCount task' = RetryCount task + 1
           \<and> LastAttempt task' = clock s
           \<and> FilePath task' = FilePath task \<and> Key task' = Key task
           \<and> cap (taskQueue (up s2)) = cap (taskQueue (up s))
           \<and> cap (resultChan (up s2)) = cap (resultChan (up s))
           \<and> clock s2 = clock s + 2 ^ nat (RetryCount task)
           \<and> attempted s2 = attempted s @ [(clock s, task)]
           \<and> map Success (buf (resultChan (up s2))) = map Success (buf (resultChan (up s))) @ [False]"
proof -
  define s0 where "s0 = s\<lparr>up := (up s)\<lparr>taskQueue := (taskQueue (up s))\<lparr>buf := []\<rparr>\<rparr>\<rparr>"
  define r where "r = processUpload lib (world (clock s0)) (up s0) task"
  define s1 where "s1 = s0\<lparr>attempted := attempted s0 @ [(clock s0, task)],
      up := (up s0)\<lparr>resultChan := (resultChan (up s0))\<lparr>buf := buf (resultChan (up s0)) @ [r]\<rparr>\<rparr>\<rparr>"
  define task' where "task' = (Task r)\<lparr>RetryCount := RetryCount task + 1, LastAttempt := clock s0\<rparr>"
  define s2 where "s2 = s1\<lparr>clock := clock s0 + 2 ^ nat (RetryCount task),
      up := (up s1)\<lparr>taskQueue := (taskQueue (up s0))\<lparr>buf := [] @ [task']\<rparr>\<rparr>\<rparr>"
  have clk: "clock s0 = clock s"
    by (simp add: s0_def)
  have r_eq: "r = processUpload lib (world (clock s)) u task"
    using processUpload_any_uploader [of lib "world (clock s)" "up s0" task u]
    by (simp only: r_def clk)
  have s0_facts: "\<not> ctxDone (up s0)" "\<not> closed (resultChan (up s0))"
    "\<not> closed (taskQueue (up s0))" "buf (taskQueue (up s0)) = []"
    "cap (taskQueue (up s0)) = cap (taskQueue (up s))"
    "cap (resultChan (up s0)) = cap (resultChan (up s))"
    "buf (resultChan (up s0)) = buf (resultChan (up s))"
    "attempted s0 = attempted s"
    using assms by (simp_all add: s0_def)
  have room: "length (buf (resultChan (up s0))) < cap (resultChan (up s0))"
    using assms(8) by (simp add: s0_facts)
  note body = workerBody_live [of s0 r lib world task s1, OF s0_facts(1) s0_facts(2) room r_def s1_def]
  have b: "workerBody lib world s0 task = (None, s2)"
    using body assms(5,6,7,9) s0_facts r_eq
    by (simp add: Let_def s2_def task'_def s1_def)
  have step: "worker lib world s = worker lib world s2"
    using worker_cons [OF assms(4), of lib world] b by (simp add: s0_def)
  from processUpload_Task [of lib "world (clock s0)" "up s0" task]
  have fields: "FilePath task' = FilePath task" "Key task' = Key task"
    "RetryCount task' = RetryCount task + 1" "LastAttempt task' = clock s"
    by (simp_all add: task'_def r_def clk)
  have "\<not> Success r"
    using assms(9) r_eq by simp
  then show ?thesis
    using step fields s0_facts clk
    by (intro exI [of _ s2] exI [of _ task']) (simp add: s2_def s1_def)
qed

text \<open>A failed attempt on the only task of the queue at retry count 3.\<close>

lemma worker_last_step:
  assumes "\<not> ctxDone (up s)" and "\<not> closed (taskQueue (up s))" and "\<not> closed (resultChan (up s))"
    and "buf (taskQueue (up s)) = [task]"
    and "3 \<le> RetryCount task"
    and "length (buf (resultChan (up s))) < cap (resultChan (up s))"
    and "\<not> Success (processUpload lib (world (clock s)) u task)"
  shows "\<exists>s'. worker lib world s = (Waiting, s')
           \<and> buf (taskQueue (up s')) = []
           \<and> clock s' = clock s
           \<and> attempted s' = attempted s @ [(clock s, task)]
           \<and> map Success (buf (resultChan (up s'))) = map Success (buf (resultChan (up s))) @ [False]"
proof -
  define s0 where "s0 = s\<lparr>up := (up s)\<lparr>taskQueue := (taskQueue (up s))\<lparr>buf := []\<rparr>\<rparr>\<rparr>"
  define r where "r = processUpload lib (world (clock s0)) (up s0) task"
  define s1 where "s1 = s0\<lparr>attempted := attempted s0 @ [(clock s0, task)],
      up := (up s0)\<lparr>resultChan := (resultChan (up s0))\<lparr>buf := buf (resultChan (up s0)) @ [r]\<rparr>\<rparr>\<rparr>"
  have clk: "clock s0 = clock s"
    by (simp add: s0_def)
  have r_eq: "r = processUpload lib (world (clock s)) u task"
    using processUpload_any_uploader [of lib "world (clock s)" "up s0" task u]
    by (simp only: r_def clk)
  have s0_facts: "\<not> ctxDone (up s0)" "\<not> closed (resultChan (up s0))"
    "\<not> closed (taskQueue (up s0))" "buf (taskQueue (up s0)) = []"
    "buf (resultChan (up s0)) = buf (resultChan (up s))"
    "attempted s0 = attempted s"
    using assms by (simp_all add: s0_def)
  have room: "length (buf (resultChan (up s0))) < cap (resultChan (up s0))"
    using assms(6) by (simp add: s0_def)
  note body = workerBody_live [of s0 r lib world task s1, OF s0_facts(1) s0_facts(2) room r_def s1_def]
  have b: "workerBody lib world s0 task = (None, s1)"
    using body assms(5) by simp
  have "worker lib world s = worker lib world s1"
    using worker_cons [OF assms(4), of lib world] b by (simp add: s0_def)
  moreover have "worker lib world s1 = (Waiting, s1)"
    using s0_facts by (simp add: worker_empty s1_def)
  moreover have "\<not> Success r"
    using assms(7) r_eq by simp
  ultimately show ?thesis
    using s0_facts clk by (intro exI [of _ s1]) (simp add: s1_def)
qed

lemma worker_single_task_timeline:
  assumes "\<not> ctxDone (up s)" and "\<not> closed (taskQueue (up s))" and "\<not> closed (resultChan (up s))"
    and "buf (taskQueue (up s)) = [task]"
    and "RetryCount task = 0"
    and "0 < cap (taskQueue (up s))"
    and "length (buf (resultChan (up s))) + 4 \<le> cap (resultChan (up s))"
    and "\<forall>t u k. FilePath k = FilePath task \<and> Key k = Key task
           \<longrightarrow> \<not> Success (processUpload lib (world t) u k)"
  shows "\<exists>s'. worker lib world s = (Waiting, s')
           \<and> buf (taskQueue (up s')) = []
           \<and> map (\<lambda>(t, k). (t, RetryCount k)) (attempted s')
               = map (\<lambda>(t, k). (t, RetryCount k)) (attempted s)
                 @ [(clock s, 0), (clock s + 1, 1), (clock s + 3, 2), (clock s + 7, 3)]
           \<and> map Success (buf (resultChan (up s')))
               = map Success (buf (resultChan (up s))) @ [False, False, False, False]
           \<and> clock s' = clock s + 7"
proof -
  have fail: "\<not> Success (processUpload lib (world t) (up s) k)"
    if "FilePath k = FilePath task" "Key k = Key task" for t k
    using assms(8) that by blast
  have room: "length (buf (resultChan (up s))) < cap (resultChan (up s))"
    using assms(7) by simp
  have rc0: "0 \<le> RetryCount task" "RetryCount task < 3"
    using assms(5) by simp_all
  have f0: "\<not> Success (processUpload lib (world (clock s)) (up s) task)"
    by (rule fail) simp_all
  from worker_retry_step [where u = "up s" and lib = lib and world = world and s = s, OF assms(1-4) rc0 assms(6) room f0] assms(5)
  obtain s1 t1 where 1: "worker lib world s = worker lib world s1"
    "\<not> ctxDone (up s1)" "\<not> closed (taskQueue (up s1))" "\<not> closed (resultChan (up s1))"
    "buf (taskQueue (up s1)) = [t1]" "RetryCount t1 = 1"
    "FilePath t1 = FilePath task" "Key t1 = Key task"
    "cap (taskQueue (up s1)) = cap (taskQueue (up s))"
    "cap (resultChan (up s1)) = cap (resultChan (up s))"
    "clock s1 = clock s + 1"
    "attempted s1 = attempted s @ [(clock s, task)]"
    "map Success (buf (resultChan (up s1))) = map Success (buf (resultChan (up s))) @ [False]"
    by auto
  have len1: "length (buf (resultChan (up s1))) = length (buf (resultChan (up s))) + 1"
    using arg_cong [OF 1(13), of length] by simp
  have room1: "length (buf (resultChan (up s1))) < cap (resultChan (up s1))"
    using assms(7) len1 1(10) by simp
  have q1: "0 < cap (taskQueue (up s1))" using assms(6) 1(9) by simp
  have rc1: "0 \<le> RetryCount t1" "RetryCount t1 < 3"
    using 1(6) by simp_all
  have f1: "\<not> Success (processUpload lib (world (clock s1)) (up s) t1)"
    by (rule fail) (simp_all add: 1)
  from worker_retry_step [where u = "up s" and lib = lib and world = world and s = s1, OF 1(2-5) rc1 q1 room1 f1] 1(6-8)
  obtain s2 t2 where 2: "worker lib world s1 = worker lib world s2"
    "\<not> ctxDone (up s2)" "\<not> closed (taskQueue (up s2))" "\<not> closed (resultChan (up s2))"
    "buf (taskQueue (up s2)) = [t2]" "RetryCount t2 = 2"
    "FilePath t2 = FilePath task" "Key t2 = Key task"
    "cap (taskQueue (up s2)) = cap (taskQueue (up s1))"
    "cap (resultChan (up s2)) = cap (resultChan (up s1))"
    "clock s2 = clock s1 + 2"
    "attempted s2 = attempted s1 @ [(clock s1, t1)]"
    "map Success (buf (resultChan (up s2))) = map Success (buf (resultChan (up s1))) @ [False]"
    by auto
  have len2: "length (buf (resultChan (up s2))) = length (buf (resultChan (up s))) + 2"
    using arg_cong [OF 2(13), of length] len1 by simp
  have room2: "length (buf (resultChan (up s2))) < cap (resultChan (up s2))"
    using assms(7) len2 1(10) 2(10) by simp
  have q2: "0 < cap (taskQueue (up s2))" using q1 2(9) by simp
  have rc2: "0 \<le> RetryCount t2" "RetryCount t2 < 3"
    using 2(6) by simp_all
  have f2: "\<not> Success (processUpload lib (world (clock s2)) (up s) t2)"
    by (rule fail) (simp_all add: 2)
  from worker_retry_step [where u = "up s" and lib = lib and world = world and s = s2, OF 2(2-5) rc2 q2 room2 f2] 2(6-8)
  obtain s3 t3 where 3: "worker lib world s2 = worker lib world s3"
    "\<not> ctxDone (up s3)" "\<not> closed (taskQueue (up s3))" "\<not> closed (resultChan (up s3))"
    "buf (taskQueue (up s3)) = [t3]" "RetryCount t3 = 3"
    "FilePath t3 = FilePath task" "Key t3 = Key task"
    "cap (resultChan (up s3)) = cap (resultChan (up s2))"
    "clock s3 = clock s2 + 4"
    "attempted s3 = attempted s2 @ [(clock s2, t2)]"
    "map Success (buf (resultChan (up s3))) = map Success (buf (resultChan (up s2))) @ [False]"
    by auto
  have len3: "length (buf (resultChan (up s3))) = length (buf (resultChan (up s))) + 3"
    using arg_cong [OF 3(12), of length] len2 by simp
  have room3: "length (buf (resultChan (up s3))) < cap (resultChan (up s3))"
    using assms(7) len3 1(10) 2(10) 3(9) by simp
  have rc3: "3 \<le> RetryCount t3"
    using 3(6) by simp
  have f3: "\<not> Success (processUpload lib (world (clock s3)) (up s) t3)"
    by (rule fail) (simp_all add: 3)
  from worker_last_step [where u = "up s" and lib = lib and world = world and s = s3, OF 3(2-5) rc3 room3 f3]
  obtain s' where 4: "worker lib world s3 = (Waiting, s')"
    "buf (taskQueue (up s')) = []" "clock s' = clock s3"
    "attempted s' = attempted s3 @ [(clock s3, t3)]"
    "map Success (buf (resultChan (up s'))) = map Success (buf (resultChan (up s3))) @ [False]"
    by auto
  have "worker lib world s = (Waiting, s')"
    using 1(1) 2(1) 3(1) 4(1) by simp
  then show ?thesis
    using 4 3 2 1 assms(5) by (intro exI [of _ s']) simp
qed

lemma backedOff_earlier:
  "backedOff lo xs \<Longrightarrow> lo' \<le> lo \<Longrightarrow> backedOff lo' xs"
  by (cases xs) auto

lemma upto_from: "(c::int) \<le> 3 \<Longrightarrow> [c..3] = c # [c + 1..3]"
  by (simp add: upto_rec1)

lemma worker_task_attempts:
  assumes "\<not> ctxDone (up s)"
    and "\<not> closed (taskQueue (up s))"
    and "\<not> closed (resultChan (up s))"
    and "list_all (\<lambda>k. 0 \<le> RetryCount k) (buf (taskQueue (up s)))"
    and "length (buf (taskQueue (up s))) \<le> cap (taskQueue (up s))"
    and "length (buf (resultChan (up s))) + queueWork (buf (taskQueue (up s)))
           \<le> cap (resultChan (up s))"
    and "\<forall>t u k. sel k \<longrightarrow> \<not> Success (processUpload lib (world t) u k)"
    and "length (filter sel (buf (taskQueue (up s)))) \<le> 1"
    and "list_all (\<lambda>k. sel k \<longrightarrow> RetryCount k \<le> 3) (buf (taskQueue (up s)))"
    and "sel = (\<lambda>k. FilePath k = p \<and> Key k = ky)"
  shows "\<exists>s' new. worker lib world s = (Waiting, s')
           \<and> buf (taskQueue (up s')) = []
           \<and> attempted s' = attempted s @ new
           \<and> map (\<lambda>(t, k). RetryCount k) (filter (\<lambda>(t, k). sel k) new)
               = concat (map (\<lambda>k. [RetryCount k..3]) (filter sel (buf (taskQueue (up s)))))
           \<and> backedOff (clock s)
                (map (\<lambda>(t, k). (t, RetryCount k)) (filter (\<lambda>(t, k). sel k) new))"
  using assms
proof (induction lib world s rule: worker.induct)
  case (1 lib world s)
  note live = "1.prems"(1-6) and fails = "1.prems"(7) and one = "1.prems"(8)
    and le3 = "1.prems"(9) and sel_def = "1.prems"(10)
  let ?sel = "sel"
  let ?selA = "\<lambda>(t, k). sel k"
  show ?case
  proof (cases "buf (taskQueue (up s))")
    case Nil
    with live show ?thesis by (simp add: worker_empty)
  next
    case (Cons task rest)
    define s0 where "s0 = s\<lparr>up := (up s)\<lparr>taskQueue := (taskQueue (up s))\<lparr>buf := rest\<rparr>\<rparr>\<rparr>"
    define r where "r = processUpload lib (world (clock s0)) (up s0) task"
    define s1 where "s1 = s0\<lparr>attempted := attempted s0 @ [(clock s0, task)],
        up := (up s0)\<lparr>resultChan := (resultChan (up s0))\<lparr>buf := buf (resultChan (up s0)) @ [r]\<rparr>\<rparr>\<rparr>"
    have s0_facts: "\<not> ctxDone (up s0)" "\<not> closed (resultChan (up s0))"
      "\<not> closed (taskQueue (up s0))" "buf (taskQueue (up s0)) = rest"
      "cap (taskQueue (up s0)) = cap (taskQueue (up s))"
      "cap (resultChan (up s0)) = cap (resultChan (up s))"
      "buf (resultChan (up s0)) = buf (resultChan (up s))"
      "attempted s0 = attempted s" "clock s0 = clock s"
      using live by (simp_all add: s0_def)
    have room: "length (buf (resultChan (up s0))) < cap (resultChan (up s0))"
      using live(6) Cons by (simp add: s0_facts queueWork_Cons attemptsLeft_def)
    note body = workerBody_live [of s0 r lib world task s1, OF s0_facts(1) s0_facts(2) room r_def s1_def]
    have nonneg: "0 \<le> RetryCount task" "list_all (\<lambda>k. 0 \<le> RetryCount k) rest"
      using live(4) Cons by simp_all
    have qroom: "length rest < cap (taskQueue (up s))"
      using live(5) Cons by simp
    have upper: "?sel task \<Longrightarrow> RetryCount task \<le> 3"
      "list_all (\<lambda>k. sel k \<longrightarrow> RetryCount k \<le> 3) rest"
      using le3 Cons by simp_all
    have sel_fail: "?sel task \<Longrightarrow> \<not> Success r"
      using fails unfolding r_def by blast
    have sel_rest: "?sel task \<Longrightarrow> filter ?sel rest = []"
      using one Cons by simp
    have one_rest: "length (filter ?sel rest) \<le> 1"
      using one Cons by (simp split: if_splits)
    show ?thesis
    proof (cases "\<not> Success r \<and> RetryCount task < 3")
      case True
      define task' where "task' = (Task r)\<lparr>RetryCount := RetryCount task + 1, LastAttempt := clock s0\<rparr>"
      define s2 where "s2 = s1\<lparr>clock := clock s0 + 2 ^ nat (RetryCount task),
          up := (up s1)\<lparr>taskQueue := (taskQueue (up s0))\<lparr>buf := rest @ [task']\<rparr>\<rparr>\<rparr>"
      have b: "workerBody lib world s0 task = (None, s2)"
        using body True nonneg(1) s0_facts qroom
        by (simp add: Let_def s2_def task'_def s1_def)
      from processUpload_Task [of lib "world (clock s0)" "up s0" task]
      have same: "?sel task' = ?sel task" "RetryCount task' = RetryCount task + 1"
        by (simp_all add: task'_def r_def sel_def)
      have w: "attemptsLeft task' < attemptsLeft task"
        using True nonneg(1) by (simp add: attemptsLeft_def task'_def)
      have s2_live: "\<not> ctxDone (up s2)" "\<not> closed (taskQueue (up s2))" "\<not> closed (resultChan (up s2))"
        "list_all (\<lambda>k. 0 \<le> RetryCount k) (buf (taskQueue (up s2)))"
        "length (buf (taskQueue (up s2))) \<le> cap (taskQueue (up s2))"
        "length (buf (resultChan (up s2))) + queueWork (buf (taskQueue (up s2)))
           \<le> cap (resultChan (up s2))"
        using s0_facts nonneg qroom live(6) Cons w
        by (simp_all add: s2_def s1_def task'_def queueWork_Cons queueWork_snoc)
      have q2: "buf (taskQueue (up s2)) = rest @ [task']" "clock s2 = clock s + 2 ^ nat (RetryCount task)"
        "attempted s2 = attempted s @ [(clock s, task)]"
        by (simp_all add: s2_def s1_def s0_facts)
      have one2: "length (filter ?sel (buf (taskQueue (up s2)))) \<le> 1"
        using one_rest sel_rest same by (auto simp: q2)
      have le2: "list_all (\<lambda>k. sel k \<longrightarrow> RetryCount k \<le> 3) (buf (taskQueue (up s2)))"
        using upper(2) True same by (simp add: q2)
      from "1.IH" [OF Cons b [symmetric, unfolded s0_def] refl s2_live fails one2 le2 sel_def]
      obtain s' new where run: "worker lib world s2 = (Waiting, s')"
        and q: "buf (taskQueue (up s')) = []"
        and att: "attempted s' = attempted s2 @ new"
        and rcs: "map (\<lambda>(t, k). RetryCount k) (filter ?selA new)
               = concat (map (\<lambda>k. [RetryCount k..3]) (filter ?sel (buf (taskQueue (up s2)))))"
        and bo: "backedOff (clock s2) (map (\<lambda>(t, k). (t, RetryCount k)) (filter ?selA new))"
        by blast
      have "worker lib world s = (Waiting, s')"
        using worker_cons [OF Cons, of lib world] b run by (simp add: s0_def)
      moreover have "attempted s' = attempted s @ ((clock s, task) # new)"
        using att by (simp add: q2)
      moreover have "map (\<lambda>(t, k). RetryCount k) (filter ?selA ((clock s, task) # new))
               = concat (map (\<lambda>k. [RetryCount k..3]) (filter ?sel (buf (taskQueue (up s)))))"
      proof (cases "?sel task")
        case True
        with sel_rest same True \<open>\<not> Success r \<and> RetryCount task < 3\<close> rcs Cons show ?thesis
          by (simp add: q2 upto_from)
      next
        case False
        with same rcs Cons show ?thesis by (simp add: q2)
      qed
      moreover have "backedOff (clock s)
           (map (\<lambda>(t, k). (t, RetryCount k)) (filter ?selA ((clock s, task) # new)))"
        using bo backedOff_earlier [OF bo, of "clock s"] by (simp add: q2)
      ultimately show ?thesis using q by blast
    next
      case False
      have b: "workerBody lib world s0 task = (None, s1)"
        using body False by simp
      have s1_live: "\<not> ctxDone (up s1)" "\<not> closed (taskQueue (up s1))" "\<not> closed (resultChan (up s1))"
        "list_all (\<lambda>k. 0 \<le> RetryCount k) (buf (taskQueue (up s1)))"
        "length (buf (taskQueue (up s1))) \<le> cap (taskQueue (up s1))"
        "length (buf (resultChan (up s1))) + queueWork (buf (taskQueue (up s1)))
           \<le> cap (resultChan (up s1))"
        using s0_facts nonneg qroom live(6) Cons
        by (simp_all add: s1_def queueWork_Cons attemptsLeft_def)
      have q1: "buf (taskQueue (up s1)) = rest" "clock s1 = clock s"
        "attempted s1 = attempted s @ [(clock s, task)]"
        by (simp_all add: s1_def s0_facts)
      have one1: "length (filter ?sel (buf (taskQueue (up s1)))) \<le> 1"
        using one_rest by (simp add: q1)
      have le1: "list_all (\<lambda>k. sel k \<longrightarrow> RetryCount k \<le> 3) (buf (taskQueue (up s1)))"
        using upper(2) by (simp add: q1)
      from "1.IH" [OF Cons b [symmetric, unfolded s0_def] refl s1_live fails one1 le1 sel_def]
      obtain s' new where run: "worker lib world s1 = (Waiting, s')"
        and q: "buf (taskQueue (up s')) = []"
        and att: "attempted s' = attempted s1 @ new"
        and rcs: "map (\<lambda>(t, k). RetryCount k) (filter ?selA new)
               = concat (map (\<lambda>k. [RetryCount k..3]) (filter ?sel (buf (taskQueue (up s1)))))"
        and bo: "backedOff (clock s1) (map (\<lambda>(t, k). (t, RetryCount k)) (filter ?selA new))"
        by blast
      have "worker lib world s = (Waiting, s')"
        using worker_cons [OF Cons, of lib world] b run by (simp add: s0_def)
      moreover have "attempted s' = attempted s @ ((clock s, task) # new)"
        using att by (simp add: q1)
      moreover have "map (\<lambda>(t, k). RetryCount k) (filter ?selA ((clock s, task) # new))
               = concat (map (\<lambda>k. [RetryCount k..3]) (filter ?sel (buf (taskQueue (up s)))))"
      proof (cases "?sel task")
        case True
        with sel_fail False upper(1) have "RetryCount task = 3" by auto
        then show ?thesis
          using True sel_rest rcs Cons by (simp add: q1)
      next
        case False
        with rcs Cons show ?thesis by (simp add: q1)
      qed
      moreover have "backedOff (clock s)
           (map (\<lambda>(t, k). (t, RetryCount k)) (filter ?selA ((clock s, task) # new)))"
      proof (cases "?sel task")
        case True
        with sel_rest rcs have "filter ?selA new = []"
          by (simp add: q1)
        then show ?thesis by simp
      next
        case False
        with bo show ?thesis by (simp add: q1)
      qed
      ultimately show ?thesis using q by blast
    qed
  qed
qed

lemma exampleRun_up:
  "up exampleRun = \<lparr>taskQueue = \<lparr>buf = [exampleTask], cap = 1000, closed = False\<rparr>,
      resultChan = \<lparr>buf = [], cap = 100, closed = False\<rparr>, maxConcurrency = 4,
      throttleBytes = 0, ctxDone = False, running = True\<rparr>"
  by (simp add: exampleRun_def QueueUpload_def trySend_def Start_def NewUploader_def makeChan_def)

text \<open>
  C1, as amended. For every upload task that enters the pipeline with retryCount = 0 and
  whose upload fails on every attempt (the uploader not stopped, the queues open, room
  on the result stream, no other task for the same file and key in the queue), the
  worker drains the queue and the task is attempted exactly four times, at retry counts
  0, 1, 2 and 3, never a fifth: a fourth attempt is made after three failures. Each
  failed attempt with retryCount < 3 puts the task back with retryCount incremented, and
  its next attempt comes no earlier than 2^retryCount seconds later (exactly 1, 2 and 4
  seconds later when the task is alone in the queue); the failure of the attempt made
  with retryCount 3 is published and the task is not put back.
\<close>

theorem worker_failing_task_attempts:
  assumes "\<not> ctxDone (up s)"
    and "\<not> closed (taskQueue (up s))"
    and "\<not> closed (resultChan (up s))"
    and "list_all (\<lambda>k. 0 \<le> RetryCount k) (buf (taskQueue (up s)))"
    and "length (buf (taskQueue (up s))) \<le> cap (taskQueue (up s))"
    and "length (buf (resultChan (up s))) + queueWork (buf (taskQueue (up s)))
           \<le> cap (resultChan (up s))"
    and "filter (\<lambda>k. FilePath k = FilePath task \<and> Key k = Key task) (buf (taskQueue (up s))) = [task]"
    and "RetryCount task = 0"
    and "\<forall>t u k. FilePath k = FilePath task \<and> Key k = Key task
           \<longrightarrow> \<not> Success (processUpload lib (world t) u k)"
  shows "\<exists>s' new. worker lib world s = (Waiting, s')
           \<and> buf (taskQueue (up s')) = []
           \<and> attempted s' = attempted s @ new
           \<and> buf (resultChan (up s'))
               = buf (resultChan (up s)) @ map (\<lambda>(t, k). processUpload lib (world t) (up s) k) new
           \<and> map (\<lambda>(t, k). RetryCount k)
                 (filter (\<lambda>(t, k). FilePath k = FilePath task \<and> Key k = Key task) new)
               = [0, 1, 2, 3]
           \<and> backedOff (clock s)
                (map (\<lambda>(t, k). (t, RetryCount k))
                   (filter (\<lambda>(t, k). FilePath k = FilePath task \<and> Key k = Key task) new))
           \<and> (buf (taskQueue (up s)) = [task] \<longrightarrow>
                map (\<lambda>(t, k). (t, RetryCount k)) new
                  = [(clock s, 0), (clock s + 1, 1), (clock s + 3, 2), (clock s + 7, 3)]
                \<and> clock s' = clock s + 7)"
proof -
  define sel :: "UploadTask \<Rightarrow> bool" where "sel = (\<lambda>k. FilePath k = FilePath task \<and> Key k = Key task)"
  have one: "length (filter sel (buf (taskQueue (up s)))) \<le> 1"
    using assms(7) by (simp add: sel_def)
  have le3: "list_all (\<lambda>k. sel k \<longrightarrow> RetryCount k \<le> 3) (buf (taskQueue (up s)))"
  proof -
    have "RetryCount k \<le> 3" if "k \<in> set (buf (taskQueue (up s)))" "sel k" for k
    proof -
      from that have "k \<in> set (filter sel (buf (taskQueue (up s))))" by simp
      with assms(7,8) show ?thesis by (simp add: sel_def)
    qed
    then show ?thesis by (auto simp: list_all_iff)
  qed
  have fails: "\<forall>t u k. sel k \<longrightarrow> \<not> Success (processUpload lib (world t) u k)"
    using assms(9) by (simp add: sel_def)
  from worker_task_attempts [OF assms(1-6) fails one le3 sel_def]
  obtain s' new where run: "worker lib world s = (Waiting, s')"
    and q: "buf (taskQueue (up s')) = []"
    and att: "attempted s' = attempted s @ new"
    and rcs: "map (\<lambda>(t, k). RetryCount k) (filter (\<lambda>(t, k). sel k) new)
               = concat (map (\<lambda>k. [RetryCount k..3]) (filter sel (buf (taskQueue (up s)))))"
    and bo: "backedOff (clock s) (map (\<lambda>(t, k). (t, RetryCount k)) (filter (\<lambda>(t, k). sel k) new))"
    by blast
  from worker_drains [OF assms(1-6), of lib world "up s"] run att
  have res: "buf (resultChan (up s'))
      = buf (resultChan (up s)) @ map (\<lambda>(t, k). processUpload lib (world t) (up s) k) new"
    by auto
  have four: "map (\<lambda>(t, k). RetryCount k) (filter (\<lambda>(t, k). sel k) new) = [0, 1, 2, 3]"
    using rcs assms(7,8) by (simp add: sel_def upto_rec1)
  have alone: "map (\<lambda>(t, k). (t, RetryCount k)) new
                  = [(clock s, 0), (clock s + 1, 1), (clock s + 3, 2), (clock s + 7, 3)]
                \<and> clock s' = clock s + 7"
    if only: "buf (taskQueue (up s)) = [task]"
  proof -
    have room: "length (buf (resultChan (up s))) + 4 \<le> cap (resultChan (up s))"
      using assms(6,8) only by (simp add: queueWork_def attemptsLeft_def)
    have qcap: "0 < cap (taskQueue (up s))"
      using assms(5) only by simp
    from worker_single_task_timeline [OF assms(1-3) only assms(8) qcap room assms(9)]
    obtain s'' where "worker lib world s = (Waiting, s'')"
      and tl: "map (\<lambda>(t, k). (t, RetryCount k)) (attempted s'')
               = map (\<lambda>(t, k). (t, RetryCount k)) (attempted s)
                 @ [(clock s, 0), (clock s + 1, 1), (clock s + 3, 2), (clock s + 7, 3)]"
      and "clock s'' = clock s + 7"
      by blast
    with run att show ?thesis by simp
  qed
  have "worker lib world s = (Waiting, s')
           \<and> buf (taskQueue (up s')) = []
           \<and> attempted s' = attempted s @ new
           \<and> buf (resultChan (up s'))
               = buf (resultChan (up s)) @ map (\<lambda>(t, k). processUpload lib (world t) (up s) k) new
           \<and> map (\<lambda>(t, k). RetryCount k)
                 (filter (\<lambda>(t, k). FilePath k = FilePath task \<and> Key k = Key task) new)
               = [0, 1, 2, 3]
           \<and> backedOff (clock s)
                (map (\<lambda>(t, k). (t, RetryCount k))
                   (filter (\<lambda>(t, k). FilePath k = FilePath task \<and> Key k = Key task) new))
           \<and> (buf (taskQueue (up s)) = [task] \<longrightarrow>
                map (\<lambda>(t, k). (t, RetryCount k)) new
                  = [(clock s, 0), (clock s + 1, 1), (clock s + 3, 2), (clock s + 7, 3)]
                \<and> clock s' = clock s + 7)"
    using run q att res four bo alone by (simp add: sel_def)
  then show ?thesis by (intro exI)
qed

theorem worker_failing_task_attempts_witness:
  "\<exists>s' new. worker exampleLib failingWorld exampleRun = (Waiting, s')
      \<and> buf (taskQueue (up s')) = []
      \<and> attempted s' = new
      \<and> map (\<lambda>(t, k). (t, RetryCount k)) new = [(0, 0), (1, 1), (3, 2), (7, 3)]
      \<and> clock s' = 7"
proof -
  have h: "\<not> ctxDone (up exampleRun)" "\<not> closed (taskQueue (up exampleRun))"
    "\<not> closed (resultChan (up exampleRun))"
    "list_all (\<lambda>k. 0 \<le> RetryCount k) (buf (taskQueue (up exampleRun)))"
    "length (buf (taskQueue (up exampleRun))) \<le> cap (taskQueue (up exampleRun))"
    "length (buf (resultChan (up exampleRun))) + queueWork (buf (taskQueue (up exampleRun)))
       \<le> cap (resultChan (up exampleRun))"
    "filter (\<lambda>k. FilePath k = FilePath exampleTask \<and> Key k = Key exampleTask)
       (buf (taskQueue (up exampleRun))) = [exampleTask]"
    "RetryCount exampleTask = 0"
    by (simp_all add: exampleRun_up exampleTask_def queueWork_def attemptsLeft_def)
  have fails: "\<forall>t u k. FilePath k = FilePath exampleTask \<and> Key k = Key exampleTask
           \<longrightarrow> \<not> Success (processUpload exampleLib (failingWorld t) u k)"
    by (simp add: processUpload_def failingWorld_def)
  have start: "attempted exampleRun = []" "clock exampleRun = 0"
    "buf (taskQueue (up exampleRun)) = [exampleTask]"
    by (simp_all add: exampleRun_up) (simp_all add: exampleRun_def)
  from worker_failing_task_attempts [OF h fails]
  obtain s' new where "worker exampleLib failingWorld exampleRun = (Waiting, s')"
    "buf (taskQueue (up s')) = []" "attempted s' = attempted exampleRun @ new"
    "buf (taskQueue (up exampleRun)) = [exampleTask] \<longrightarrow>
       map (\<lambda>(t, k). (t, RetryCount k)) new
         = [(clock exampleRun, 0), (clock exampleRun + 1, 1), (clock exampleRun + 3, 2),
            (clock exampleRun + 7, 3)]
       \<and> clock s' = clock exampleRun + 7"
    by (elim exE conjE) (rule that)
  then have "worker exampleLib failingWorld exampleRun = (Waiting, s')
      \<and> buf (taskQueue (up s')) = []
      \<and> attempted s' = new
      \<and> map (\<lambda>(t, k). (t, RetryCount k)) new = [(0, 0), (1, 1), (3, 2), (7, 3)]
      \<and> clock s' = 7"
    by (simp add: start)
  then show ?thesis by (intro exI)
qed

text \<open>
  The claim as stated fails on the task whose file cannot be opened: after three failed
  attempts a fourth one is made, at retry count 3 and 7 seconds after the first.
\<close>

theorem worker_fourth_attempt_is_made:
  "map (\<lambda>(t, k). (t, RetryCount k)) (attempted (snd (worker exampleLib failingWorld exampleRun)))
     = [(0, 0), (1, 1), (3, 2), (7, 3)]
   \<and> map Success (buf (resultChan (up (snd (worker exampleLib failingWorld exampleRun)))))
     = [False, False, False, False]"
  by code_simp




subsection \<open>SyncOrchestrator: folders built from the configuration\<close>
















subsection \<open>SyncOrchestrator: two-way reconciliation\<close>

lemma needsDownload_iff:
  "needsDownload lf folder rf \<longleftrightarrow>
     lf (remotePathOf folder rf) = None
     \<or> (\<exists>m. lf (remotePathOf folder rf) = Some m \<and> m < fiLastModified rf)"
  by (simp add: needsDownload_def split: option.splits)

lemma fold_recordLocal_Some:
  "fold (recordLocal env folder) entries lf0 p = Some m \<Longrightarrow>
   lf0 p = Some m
   \<or> (\<exists>e \<in> set entries. \<not> weErr e \<and> \<not> weIsDir e
        \<and> rel (envLib env) (Path folder) (wePath e) = Some p
        \<and> \<not> ShouldExclude (envMatch env) p (ExcludePatterns folder)
        \<and> weModTime e = m)"
proof (induction entries arbitrary: lf0)
  case Nil
  then show ?case by simp
next
  case (Cons e entries)
  from Cons.IH [of "recordLocal env folder e lf0"] Cons.prems
  have "recordLocal env folder e lf0 p = Some m
   \<or> (\<exists>e \<in> set entries. \<not> weErr e \<and> \<not> weIsDir e
        \<and> rel (envLib env) (Path folder) (wePath e) = Some p
        \<and> \<not> ShouldExclude (envMatch env) p (ExcludePatterns folder)
        \<and> weModTime e = m)"
    by simp
  then show ?case
    by (auto simp: recordLocal_def split: if_splits option.splits)
qed

lemma fold_recordLocal_present:
  "lf0 p \<noteq> None
   \<or> (\<exists>e \<in> set entries. \<not> weErr e \<and> \<not> weIsDir e
        \<and> rel (envLib env) (Path folder) (wePath e) = Some p
        \<and> \<not> ShouldExclude (envMatch env) p (ExcludePatterns folder))
   \<Longrightarrow> fold (recordLocal env folder) entries lf0 p \<noteq> None"
proof (induction entries arbitrary: lf0)
  case Nil
  then show ?case by simp
next
  case (Cons e entries)
  have "recordLocal env folder e lf0 p \<noteq> None
   \<or> (\<exists>e \<in> set entries. \<not> weErr e \<and> \<not> weIsDir e
        \<and> rel (envLib env) (Path folder) (wePath e) = Some p
        \<and> \<not> ShouldExclude (envMatch env) p (ExcludePatterns folder))"
    using Cons.prems
    by (auto simp: recordLocal_def split: if_splits option.splits)
  from Cons.IH [of "recordLocal env folder e lf0", OF this] show ?case by simp
qed

lemma downloadLoop_fold:
  "(\<forall>i. i0 \<le> i \<and> i < i0 + length rfs \<longrightarrow> \<not> ctx i) \<Longrightarrow>
   downloadLoop env ctx folder lf i0 rfs acc = (None, fold (downloadOne env folder lf) rfs acc)"
proof (induction rfs arbitrary: i0 acc)
  case Nil
  then show ?case by simp
next
  case (Cons rf rfs)
  have "\<not> ctx i0" using Cons.prems by simp
  moreover have "\<forall>i. Suc i0 \<le> i \<and> i < Suc i0 + length rfs \<longrightarrow> \<not> ctx i"
    using Cons.prems by simp
  ultimately show ?case using Cons.IH [of "Suc i0"] by simp
qed

lemma downloadOne_calls:
  "storageCalls (snd (downloadOne env folder lf rf (st, sys)))
     = storageCalls sys @ (if needsDownload lf folder rf \<and> creatable env folder rf
                           then [DownloadFileCall (fiKey rf)] else [])"
  by (simp add: downloadOne_def creatable_def localPathOf_def Let_def split: prod.splits)

lemma downloadOne_other_files:
  "p \<noteq> localPathOf env folder rf \<or> \<not> needsDownload lf folder rf \<Longrightarrow>
   files (snd (downloadOne env folder lf rf (st, sys))) p = files sys p"
  by (auto simp: downloadOne_def localPathOf_def Let_def split: prod.splits)

lemma downloadOne_success:
  "needsDownload lf folder rf \<Longrightarrow> creatable env folder rf
   \<Longrightarrow> \<not> snd (remoteGet env (fiKey rf)) \<Longrightarrow> \<not> chtimesFails env (localPathOf env folder rf)
   \<Longrightarrow> files (snd (downloadOne env folder lf rf (st, sys))) (localPathOf env folder rf)
        = Some (downloadedFile env rf)"
  by (auto simp: downloadOne_def creatable_def localPathOf_def downloadedFile_def Let_def
           split: prod.splits)

lemma fold_downloadOne_calls:
  "storageCalls (snd (fold (downloadOne env folder lf) rfs (st, sys)))
     = storageCalls sys @ map (\<lambda>rf. DownloadFileCall (fiKey rf))
         (filter (\<lambda>rf. needsDownload lf folder rf \<and> creatable env folder rf) rfs)"
proof (induction rfs arbitrary: st sys)
  case Nil
  then show ?case by simp
next
  case (Cons rf rfs)
  obtain st1 sys1 where step: "downloadOne env folder lf rf (st, sys) = (st1, sys1)"
    by (cases "downloadOne env folder lf rf (st, sys)")
  from downloadOne_calls [of env folder lf rf st sys] step
  have "storageCalls sys1 = storageCalls sys @ (if needsDownload lf folder rf \<and> creatable env folder rf
                           then [DownloadFileCall (fiKey rf)] else [])"
    by simp
  with Cons.IH [of st1 sys1] step show ?case by simp
qed

lemma fold_downloadOne_other_files:
  "(\<forall>rf \<in> set rfs. needsDownload lf folder rf \<longrightarrow> localPathOf env folder rf \<noteq> p) \<Longrightarrow>
   files (snd (fold (downloadOne env folder lf) rfs (st, sys))) p = files sys p"
proof (induction rfs arbitrary: st sys)
  case Nil
  then show ?case by simp
next
  case (Cons rf rfs)
  obtain st1 sys1 where step: "downloadOne env folder lf rf (st, sys) = (st1, sys1)"
    by (cases "downloadOne env folder lf rf (st, sys)")
  from downloadOne_other_files [of p env folder rf lf st sys] Cons.prems step
  have "files sys1 p = files sys p" by auto
  with Cons.IH [of st1 sys1] Cons.prems step show ?case by simp
qed

lemma fold_downloadOne_success:
  assumes "rf \<in> set rfs"
    and "needsDownload lf folder rf" and "creatable env folder rf"
    and "\<not> snd (remoteGet env (fiKey rf))" and "\<not> chtimesFails env (localPathOf env folder rf)"
    and "\<forall>rf' \<in> set rfs. localPathOf env folder rf' = localPathOf env folder rf \<longrightarrow> rf' = rf"
  shows "files (snd (fold (downloadOne env folder lf) rfs (st, sys))) (localPathOf env folder rf)
        = Some (downloadedFile env rf)"
  using assms(1,6)
proof (induction rfs rule: rev_induct)
  case Nil
  then show ?case by simp
next
  case (snoc x xs)
  obtain st1 sys1 where before: "fold (downloadOne env folder lf) xs (st, sys) = (st1, sys1)"
    by (cases "fold (downloadOne env folder lf) xs (st, sys)")
  show ?case
  proof (cases "x = rf")
    case True
    with before downloadOne_success [OF assms(2-5), of st1 sys1] show ?thesis by simp
  next
    case False
    with snoc.prems have "rf \<in> set xs" and "localPathOf env folder x \<noteq> localPathOf env folder rf"
      and "\<forall>rf' \<in> set xs. localPathOf env folder rf' = localPathOf env folder rf \<longrightarrow> rf' = rf"
      by auto
    with snoc.IH before downloadOne_other_files [of "localPathOf env folder rf" env folder x lf st1 sys1]
    show ?thesis by simp
  qed
qed

lemma localFilesOf_calls [simp]:
  "localFilesOf env (sys\<lparr>storageCalls := c\<rparr>) folder = localFilesOf env sys folder"
  by (simp add: localFilesOf_def)

text \<open>
  What \<^verbatim>\<open>downloadFromRemote\<close> does, as it is written, in a pass whose listing succeeds
  and that is not cancelled. The local files it compares with are those its scan
  records: the files of the tree that no exclude pattern matches, under their
  folder-relative paths, with their modification times. \<^verbatim>\<open>DownloadFile\<close> is called, in listing order, for exactly the remote objects for
  which no local file is recorded at the path (the key without the prefix of the folder
  id and a slash) or whose lastModified is strictly later than the recorded time, and
  whose local file can be created. When the download and \<^verbatim>\<open>os.Chtimes\<close> succeed and no
  other listed object has the same local path, the local file afterwards holds the
  remote content with modification time equal to the remote lastModified. A path that is
  the local path of no remote object needing a download is left as it was.
\<close>

theorem downloadFromRemote_reconciles:
  assumes "remoteList env (ID folder) = Some remoteFiles"
    and "\<forall>i < length remoteFiles. \<not> ctx i"
    and "lf = localFilesOf env sys folder"
  shows "\<exists>sm' sys'. downloadFromRemote env ctx sm sys folder = (None, sm', sys')
     \<and> storageCalls sys'
         = storageCalls sys @ ListFilesCall (ID folder)
             # map (\<lambda>rf. DownloadFileCall (fiKey rf))
                 (filter (\<lambda>rf. needsDownload lf folder rf \<and> creatable env folder rf) remoteFiles)
     \<and> (\<forall>rf. needsDownload lf folder rf \<longleftrightarrow>
           lf (remotePathOf folder rf) = None
           \<or> (\<exists>m. lf (remotePathOf folder rf) = Some m \<and> m < fiLastModified rf))
     \<and> (\<forall>p. lf p \<noteq> None \<longleftrightarrow>
           (\<exists>e \<in> set (walkEntries env (files sys) (Path folder)).
              \<not> weErr e \<and> \<not> weIsDir e
              \<and> rel (envLib env) (Path folder) (wePath e) = Some p
              \<and> \<not> ShouldExclude (envMatch env) p (ExcludePatterns folder)))
     \<and> (\<forall>p m. lf p = Some m \<longrightarrow>
           (\<exists>e \<in> set (walkEntries env (files sys) (Path folder)).
              \<not> weErr e \<and> \<not> weIsDir e
              \<and> rel (envLib env) (Path folder) (wePath e) = Some p
              \<and> weModTime e = m))
     \<and> (\<forall>rf \<in> set remoteFiles.
           needsDownload lf folder rf \<and> creatable env folder rf
           \<and> \<not> snd (remoteGet env (fiKey rf))
           \<and> \<not> chtimesFails env (localPathOf env folder rf)
           \<and> (\<forall>rf' \<in> set remoteFiles.
                 localPathOf env folder rf' = localPathOf env folder rf \<longrightarrow> rf' = rf)
           \<longrightarrow> files sys' (localPathOf env folder rf) = Some (downloadedFile env rf))
     \<and> (\<forall>p. (\<forall>rf \<in> set remoteFiles. needsDownload lf folder rf \<longrightarrow> localPathOf env folder rf \<noteq> p)
           \<longrightarrow> files sys' p = files sys p)"
proof -
  define sys0 where "sys0 = sys\<lparr>storageCalls := storageCalls sys @ [ListFilesCall (ID folder)]\<rparr>"
  obtain st' sys' where run: "fold (downloadOne env folder lf) remoteFiles (stats sm, sys0) = (st', sys')"
    by (cases "fold (downloadOne env folder lf) remoteFiles (stats sm, sys0)")
  have live: "\<forall>i. 0 \<le> i \<and> i < 0 + length remoteFiles \<longrightarrow> \<not> ctx i"
    using assms(2) by simp
  have lf0: "localFilesOf env (sys\<lparr>storageCalls := storageCalls sys @ [ListFilesCall (ID folder)]\<rparr>) folder = lf"
    by (simp add: assms(3))
  have loop: "downloadLoop env ctx folder lf 0 remoteFiles
                (stats sm, sys\<lparr>storageCalls := storageCalls sys @ [ListFilesCall (ID folder)]\<rparr>)
              = (None, st', sys')"
    using downloadLoop_fold [OF live, of env folder lf "(stats sm, sys0)"] run
    by (simp add: sys0_def)
  have whole: "downloadFromRemote env ctx sm sys folder = (None, sm\<lparr>stats := st'\<rparr>, sys')"
    unfolding downloadFromRemote_def Let_def
    by (simp only: assms(1) option.case lf0 loop prod.case)
  have calls: "storageCalls sys'
         = storageCalls sys @ ListFilesCall (ID folder)
             # map (\<lambda>rf. DownloadFileCall (fiKey rf))
                 (filter (\<lambda>rf. needsDownload lf folder rf \<and> creatable env folder rf) remoteFiles)"
    using fold_downloadOne_calls [of env folder lf remoteFiles "stats sm" sys0] run
    by (simp add: sys0_def)
  have present: "lf p \<noteq> None \<longleftrightarrow>
           (\<exists>e \<in> set (walkEntries env (files sys) (Path folder)).
              \<not> weErr e \<and> \<not> weIsDir e
              \<and> rel (envLib env) (Path folder) (wePath e) = Some p
              \<and> \<not> ShouldExclude (envMatch env) p (ExcludePatterns folder))" for p
  proof
    assume "lf p \<noteq> None"
    then obtain m where "lf p = Some m" by auto
    from fold_recordLocal_Some [of env folder _ Map.empty p m] this
    show "\<exists>e \<in> set (walkEntries env (files sys) (Path folder)).
              \<not> weErr e \<and> \<not> weIsDir e
              \<and> rel (envLib env) (Path folder) (wePath e) = Some p
              \<and> \<not> ShouldExclude (envMatch env) p (ExcludePatterns folder)"
      unfolding assms(3) localFilesOf_def by auto
  next
    assume "\<exists>e \<in> set (walkEntries env (files sys) (Path folder)).
              \<not> weErr e \<and> \<not> weIsDir e
              \<and> rel (envLib env) (Path folder) (wePath e) = Some p
              \<and> \<not> ShouldExclude (envMatch env) p (ExcludePatterns folder)"
    then show "lf p \<noteq> None"
      unfolding assms(3) localFilesOf_def
      using fold_recordLocal_present [of Map.empty p "walkEntries env (files sys) (Path folder)" env folder]
      by blast
  qed
  have recorded: "\<exists>e \<in> set (walkEntries env (files sys) (Path folder)).
              \<not> weErr e \<and> \<not> weIsDir e
              \<and> rel (envLib env) (Path folder) (wePath e) = Some p
              \<and> weModTime e = m" if "lf p = Some m" for p m
    using fold_recordLocal_Some [of env folder "walkEntries env (files sys) (Path folder)" Map.empty p m] that
    unfolding assms(3) localFilesOf_def by auto
  have success: "files sys' (localPathOf env folder rf) = Some (downloadedFile env rf)"
    if "rf \<in> set remoteFiles" "needsDownload lf folder rf" "creatable env folder rf"
      "\<not> snd (remoteGet env (fiKey rf))" "\<not> chtimesFails env (localPathOf env folder rf)"
      "\<forall>rf' \<in> set remoteFiles. localPathOf env folder rf' = localPathOf env folder rf \<longrightarrow> rf' = rf"
    for rf
    using fold_downloadOne_success [OF that, of "stats sm" sys0] run by simp
  have untouched: "files sys' p = files sys p"
    if "\<forall>rf \<in> set remoteFiles. needsDownload lf folder rf \<longrightarrow> localPathOf env folder rf \<noteq> p" for p
    using fold_downloadOne_other_files [OF that, of "stats sm" sys0] run by (simp add: sys0_def)
  have needs: "\<forall>rf. needsDownload lf folder rf \<longleftrightarrow>
           lf (remotePathOf folder rf) = None
           \<or> (\<exists>m. lf (remotePathOf folder rf) = Some m \<and> m < fiLastModified rf)"
    by (simp add: needsDownload_iff)
  have present_all: "\<forall>p. lf p \<noteq> None \<longleftrightarrow>
           (\<exists>e \<in> set (walkEntries env (files sys) (Path folder)).
              \<not> weErr e \<and> \<not> weIsDir e
              \<and> rel (envLib env) (Path folder) (wePath e) = Some p
              \<and> \<not> ShouldExclude (envMatch env) p (ExcludePatterns folder))"
    using present by (intro allI)
  have recorded_all: "\<forall>p m. lf p = Some m \<longrightarrow>
           (\<exists>e \<in> set (walkEntries env (files sys) (Path folder)).
              \<not> weErr e \<and> \<not> weIsDir e
              \<and> rel (envLib env) (Path folder) (wePath e) = Some p
              \<and> weModTime e = m)"
    using recorded by (intro allI impI)
  have success_all: "\<forall>rf \<in> set remoteFiles.
           needsDownload lf folder rf \<and> creatable env folder rf
           \<and> \<not> snd (remoteGet env (fiKey rf))
           \<and> \<not> chtimesFails env (localPathOf env folder rf)
           \<and> (\<forall>rf' \<in> set remoteFiles.
                 localPathOf env folder rf' = localPathOf env folder rf \<longrightarrow> rf' = rf)
           \<longrightarrow> files sys' (localPathOf env folder rf) = Some (downloadedFile env rf)"
  proof (intro ballI impI)
    fix rf
    assume "rf \<in> set remoteFiles"
      and c: "needsDownload lf folder rf \<and> creatable env folder rf
           \<and> \<not> snd (remoteGet env (fiKey rf))
           \<and> \<not> chtimesFails env (localPathOf env folder rf)
           \<and> (\<forall>rf' \<in> set remoteFiles.
                 localPathOf env folder rf' = localPathOf env folder rf \<longrightarrow> rf' = rf)"
    then show "files sys' (localPathOf env folder rf) = Some (downloadedFile env rf)"
      by (intro success) simp_all
  qed
  have untouched_all: "\<forall>p. (\<forall>rf \<in> set remoteFiles. needsDownload lf folder rf \<longrightarrow> localPathOf env folder rf \<noteq> p)
           \<longrightarrow> files sys' p = files sys p"
    using untouched by (intro allI impI)
  show ?thesis
    apply (rule exI [of _ "sm\<lparr>stats := st'\<rparr>"], rule exI [of _ sys'])
    apply (intro conjI)
          apply (rule whole)
         apply (rule calls)
        apply (rule needs)
       apply (rule present_all)
      apply (rule recorded_all)
     apply (rule success_all)
    apply (rule untouched_all)
    done
qed

theorem downloadFromRemote_reconciles_witness:
  "\<exists>sm' sys'.
     downloadFromRemote scanEnv (\<lambda>i. False) exampleManager scanSys twoWayFolder = (None, sm', sys')
     \<and> storageCalls sys' = [ListFilesCall ''f1'', DownloadFileCall ''f1/a.txt'',
                             DownloadFileCall ''f1/b.tmp'', DownloadFileCall ''f1/c.txt'']
     \<and> files sys' ''/data/docs/a.txt'' = Some \<lparr>fileContent = ''remote f1/a.txt'', fileModTime = 200\<rparr>
     \<and> files sys' ''/data/docs/c.txt'' = Some \<lparr>fileContent = ''remote f1/c.txt'', fileModTime = 60\<rparr>
     \<and> files sys' ''/data/docs/d.txt'' = Some \<lparr>fileContent = ''local d'', fileModTime = 100\<rparr>"
proof -
  let ?a = "\<lparr>fiKey = ''f1/a.txt'', fiSize = 3, fiLastModified = 200, fiETag = []\<rparr>"
  let ?b = "\<lparr>fiKey = ''f1/b.tmp'', fiSize = 3, fiLastModified = 50, fiETag = []\<rparr>"
  let ?c = "\<lparr>fiKey = ''f1/c.txt'', fiSize = 3, fiLastModified = 60, fiETag = []\<rparr>"
  let ?d = "\<lparr>fiKey = ''f1/d.txt'', fiSize = 3, fiLastModified = 70, fiETag = []\<rparr>"
  let ?rfs = "[?a, ?b, ?c, ?d]"
  let ?lf = "localFilesOf scanEnv scanSys twoWayFolder"
  have listed: "remoteList scanEnv (ID twoWayFolder) = Some ?rfs"
    by (simp add: scanEnv_def twoWayFolder_def)
  have live: "\<forall>i < length ?rfs. \<not> (\<lambda>i. False) i"
    by simp
  have chosen: "filter (\<lambda>rf. needsDownload ?lf twoWayFolder rf \<and> creatable scanEnv twoWayFolder rf) ?rfs
                = [?a, ?b, ?c]"
    by code_simp
  have a: "?a \<in> set ?rfs \<and> needsDownload ?lf twoWayFolder ?a \<and> creatable scanEnv twoWayFolder ?a
           \<and> \<not> snd (remoteGet scanEnv (fiKey ?a))
           \<and> \<not> chtimesFails scanEnv (localPathOf scanEnv twoWayFolder ?a)
           \<and> (\<forall>rf' \<in> set ?rfs.
                 localPathOf scanEnv twoWayFolder rf' = localPathOf scanEnv twoWayFolder ?a \<longrightarrow> rf' = ?a)
           \<and> localPathOf scanEnv twoWayFolder ?a = ''/data/docs/a.txt''
           \<and> downloadedFile scanEnv ?a = \<lparr>fileContent = ''remote f1/a.txt'', fileModTime = 200\<rparr>"
    by code_simp
  have c: "?c \<in> set ?rfs \<and> needsDownload ?lf twoWayFolder ?c \<and> creatable scanEnv twoWayFolder ?c
           \<and> \<not> snd (remoteGet scanEnv (fiKey ?c))
           \<and> \<not> chtimesFails scanEnv (localPathOf scanEnv twoWayFolder ?c)
           \<and> (\<forall>rf' \<in> set ?rfs.
                 localPathOf scanEnv twoWayFolder rf' = localPathOf scanEnv twoWayFolder ?c \<longrightarrow> rf' = ?c)
           \<and> localPathOf scanEnv twoWayFolder ?c = ''/data/docs/c.txt''
           \<and> downloadedFile scanEnv ?c = \<lparr>fileContent = ''remote f1/c.txt'', fileModTime = 60\<rparr>"
    by code_simp
  have d: "(\<forall>rf \<in> set ?rfs. needsDownload ?lf twoWayFolder rf
              \<longrightarrow> localPathOf scanEnv twoWayFolder rf \<noteq> ''/data/docs/d.txt'')
           \<and> files scanSys ''/data/docs/d.txt'' = Some \<lparr>fileContent = ''local d'', fileModTime = 100\<rparr>"
    by code_simp
  have start: "storageCalls scanSys = [] \<and> ID twoWayFolder = ''f1''"
    by (simp add: scanSys_def twoWayFolder_def)
  from downloadFromRemote_reconciles [OF listed live refl, of exampleManager scanSys]
  obtain sm' sys' where
    run: "downloadFromRemote scanEnv (\<lambda>i. False) exampleManager scanSys twoWayFolder = (None, sm', sys')"
    and calls: "storageCalls sys'
         = storageCalls scanSys @ ListFilesCall (ID twoWayFolder)
             # map (\<lambda>rf. DownloadFileCall (fiKey rf))
                 (filter (\<lambda>rf. needsDownload ?lf twoWayFolder rf \<and> creatable scanEnv twoWayFolder rf) ?rfs)"
    and success: "\<forall>rf \<in> set ?rfs.
           needsDownload ?lf twoWayFolder rf \<and> creatable scanEnv twoWayFolder rf
           \<and> \<not> snd (remoteGet scanEnv (fiKey rf))
           \<and> \<not> chtimesFails scanEnv (localPathOf scanEnv twoWayFolder rf)
           \<and> (\<forall>rf' \<in> set ?rfs.
                 localPathOf scanEnv twoWayFolder rf' = localPathOf scanEnv twoWayFolder rf \<longrightarrow> rf' = rf)
           \<longrightarrow> files sys' (localPathOf scanEnv twoWayFolder rf) = Some (downloadedFile scanEnv rf)"
    and untouched: "\<forall>p. (\<forall>rf \<in> set ?rfs. needsDownload ?lf twoWayFolder rf
                              \<longrightarrow> localPathOf scanEnv twoWayFolder rf \<noteq> p)
           \<longrightarrow> files sys' p = files scanSys p"
    by (elim exE conjE) (rule that)
  have fa: "files sys' ''/data/docs/a.txt'' = Some \<lparr>fileContent = ''remote f1/a.txt'', fileModTime = 200\<rparr>"
    using success [rule_format, of ?a] a by metis
  have fc: "files sys' ''/data/docs/c.txt'' = Some \<lparr>fileContent = ''remote f1/c.txt'', fileModTime = 60\<rparr>"
    using success [rule_format, of ?c] c by metis
  have fd: "files sys' ''/data/docs/d.txt'' = Some \<lparr>fileContent = ''local d'', fileModTime = 100\<rparr>"
    using untouched [rule_format, of "''/data/docs/d.txt''"] d by metis
  have cs: "storageCalls sys' = [ListFilesCall ''f1'', DownloadFileCall ''f1/a.txt'',
                             DownloadFileCall ''f1/b.tmp'', DownloadFileCall ''f1/c.txt'']"
    unfolding calls chosen using start by simp
  from run cs fa fc fd show ?thesis
    by blast
qed

text \<open>
  C5. A remote object is to be downloaded only when no local file exists at its
  folder-relative path or the remote lastModified is strictly later than the local
  modification time. The local file \<^verbatim>\<open>b.tmp\<close> exists with modification time 100, later
  than the remote lastModified 50 of the object \<^verbatim>\<open>f1/b.tmp\<close>, and the pass downloads the
  object all the same and replaces the newer local content: the scan of
  \<^verbatim>\<open>downloadFromRemote\<close> leaves the files the exclude patterns match out of
  \<^verbatim>\<open>localFiles\<close>, so the lookup reports the file as missing. The upload scan of the same
  folder passes \<^verbatim>\<open>b.tmp\<close> over.
\<close>

theorem downloadFromRemote_overwrites_excluded_file:
  "files scanSys ''/data/docs/b.tmp'' = Some \<lparr>fileContent = ''local b'', fileModTime = 100\<rparr>
   \<and> remoteList scanEnv (ID twoWayFolder)
       = Some [\<lparr>fiKey = ''f1/a.txt'', fiSize = 3, fiLastModified = 200, fiETag = []\<rparr>,
               \<lparr>fiKey = ''f1/b.tmp'', fiSize = 3, fiLastModified = 50, fiETag = []\<rparr>,
               \<lparr>fiKey = ''f1/c.txt'', fiSize = 3, fiLastModified = 60, fiETag = []\<rparr>,
               \<lparr>fiKey = ''f1/d.txt'', fiSize = 3, fiLastModified = 70, fiETag = []\<rparr>]
   \<and> files (snd (snd (downloadFromRemote scanEnv (\<lambda>i. False) exampleManager scanSys twoWayFolder)))
         ''/data/docs/b.tmp''
       = Some \<lparr>fileContent = ''remote f1/b.tmp'', fileModTime = 50\<rparr>
   \<and> storageCalls (snd (snd (downloadFromRemote scanEnv (\<lambda>i. False) exampleManager scanSys twoWayFolder)))
       = [ListFilesCall ''f1'', DownloadFileCall ''f1/a.txt'', DownloadFileCall ''f1/b.tmp'',
          DownloadFileCall ''f1/c.txt'']
   \<and> map Key (buf (taskQueue (snd (uploadScan scanEnv twoWayFolder
                (walkEntries scanEnv (files scanSys) (Path twoWayFolder))
                (Start (NewUploader OtherValue))))))
       = [''a.txt'', ''d.txt'']"
  by code_simp

subsection \<open>The storage key of a queued file\<close>

text \<open>
  C4. The key \<^verbatim>\<open>QueueFile\<close> attaches to a task is the folder-relative path alone, without
  the remote namespace: for the folder \<^verbatim>\<open>f1\<close> at \<^verbatim>\<open>/data/docs\<close>, whose remote path in the
  configuration is \<^verbatim>\<open>f1\<close>, the file \<^verbatim>\<open>/data/docs/a.txt\<close> is queued under the key
  \<^verbatim>\<open>a.txt\<close>, not \<^verbatim>\<open>f1/a.txt\<close>, by a direct call and by a full scan alike.
\<close>

theorem QueueFile_key_is_relative_path:
  "map_of (folders exampleManager) ''f1'' = Some (exampleFolder ''f1'' ''/data/docs'')
   \<and> map (\<lambda>(fid, c). (fid, RemotePath c)) (GetAllFolders (config exampleManager)) = [(''f1'', ''f1'')]
   \<and> fst (QueueFile exampleLib 1000 (Start (NewUploader OtherValue)) ''/data/docs/a.txt'' ''/data/docs'')
       = NoError
   \<and> map (\<lambda>t. (FilePath t, Key t, FolderID t))
          (buf (taskQueue (snd (QueueFile exampleLib 1000 (Start (NewUploader OtherValue))
                                  ''/data/docs/a.txt'' ''/data/docs''))))
       = [(''/data/docs/a.txt'', ''a.txt'', [])]
   \<and> map (\<lambda>t. (FilePath t, Key t, FolderID t))
          (buf (taskQueue (uploader (fst (snd (FullSync scanEnv (\<lambda>i. False) exampleManager scanSys))))))
       = [(''/data/docs/a.txt'', ''a.txt'', []), (''/data/docs/b.tmp'', ''b.tmp'', []),
          (''/data/docs/d.txt'', ''d.txt'', [])]"
  by code_simp

end
